theory Spec2Isabelle
  imports Complex_Main "HOL-Library.Sublist"
begin

section \<open>Errors of the finite element library\<close>

text \<open>
  The library reports a failure through two macros: \<open>MFEM_ABORT\<close> prints its message
  and ends the process, \<open>MFEM_ASSERT\<close> does the same for a violated precondition of a
  library routine (incompatible sizes, an index out of range).  Both are values here:
  a routine that can fail returns \<open>mfem_error + 'a\<close>, with \<open>Inl\<close> for the failure.
\<close>

datatype mfem_error = MFEM_ABORT string | MFEM_ASSERT string

section \<open>The constructor of \<open>FE_Evolution\<close> (fe_evol.cpp, lines 3 to 197)\<close>

subsection \<open>Comparison of C strings\<close>

text \<open>
  A C string is modelled by the list of its characters; the end of the list is the
  terminating NUL.  \<open>strncmp s1 s2 n\<close> compares at most \<open>n\<close> characters, as unsigned
  bytes, stops at the first difference or at a NUL, and returns the difference of the
  two bytes there (zero when no difference was found).
\<close>

fun strncmp :: "string \<Rightarrow> string \<Rightarrow> nat \<Rightarrow> int" where
  "strncmp s1 s2 0 = 0"
| "strncmp [] [] (Suc n) = 0"
| "strncmp [] (c2 # s2) (Suc n) = - of_char c2"
| "strncmp (c1 # s1) [] (Suc n) = of_char c1"
| "strncmp (c1 # s1) (c2 # s2) (Suc n) =
     (if c1 \<noteq> c2 then of_char c1 - of_char c2
      else if c1 = CHR 0x00 then 0
      else strncmp s1 s2 n)"

subsection \<open>The constructor\<close>

text \<open>
  Of the finite element space the constructor's control flow reads the name of the
  finite element collection (\<open>fes->FEColl()->Name()\<close>) and, for each boundary of
  element 0, the number \<open>Elem1No\<close> of the first element of the face transformation
  (\<open>mesh->GetFaceElementTransformations(bdrs[i])->Elem1No\<close>).
\<close>

record FiniteElementSpace =
  FEColl_Name :: string
  Elem1No :: "int list"

text \<open>
  The loop of lines 75 to 91: every boundary of element 0 must have element 0 as its
  first element, else the constructor aborts.
\<close>

fun check_bdrs :: "int list \<Rightarrow> mfem_error + unit" where
  "check_bdrs [] = Inr ()"
| "check_bdrs (elem1 # rest) =
     (if elem1 \<noteq> 0 then Inl (MFEM_ABORT ''First element has inward pointing normal.'')
      else check_bdrs rest)"

text \<open>
  The constructor.  \<open>members\<close> is the object as the remaining initialisation fills it
  (integration rules, shape function tables, mass matrices, normals: all computed by
  library calls that the control flow does not depend on).
\<close>

definition FE_Evolution_new :: "FiniteElementSpace \<Rightarrow> 'obj \<Rightarrow> mfem_error + 'obj" where
  "FE_Evolution_new fes members =
     (let fecol = FEColl_Name fes in
      if strncmp fecol ''L2'' 2 \<noteq> 0
      then Inl (MFEM_ABORT ''FiniteElementSpace must be L2 conforming (DG).'')
      else if strncmp fecol ''L2_T2'' 5 \<noteq> 0
      then Inl (MFEM_ABORT ''Shape functions must be represented in Bernstein basis.'')
      else case check_bdrs (Elem1No fes) of
             Inl err \<Rightarrow> Inl err
           | Inr _ \<Rightarrow> Inr members)"

section \<open>Double precision numbers\<close>

text \<open>
  The numbers of \<open>LaxFriedrichs\<close> are of type \<open>double\<close>: the binary64 numbers of IEEE 754,
  with 53 bits of precision, the exponents from -1022 to 1023, the subnormal numbers,
  the two infinities and NaN.  A finite double is given by its value, so that the two
  zeros are one number.  An operation on finite doubles rounds the exact result to the
  nearest double, to the one with the even significand when two are equally near; a
  result that rounds to \<open>2 ^ 1024\<close> or beyond in magnitude is an infinity.  Every
  operation of the source is one such operation: none is fused with another or carried
  out in a wider format.
\<close>

datatype double = Finite real | PInf | MInf | NaN

definition expo :: "real \<Rightarrow> int" where
  \<comment> \<open>the binary exponent of a number, not below that of the subnormal numbers\<close>
  "expo x = max (- 1022) \<lfloor>log 2 \<bar>x\<bar>\<rfloor>"

definition ulp :: "real \<Rightarrow> real" where
  \<comment> \<open>the distance of the doubles around a number\<close>
  "ulp x = 2 powi (expo x - 52)"

definition rne :: "real \<Rightarrow> int" where
  \<comment> \<open>rounding to the nearest integer, ties to even\<close>
  "rne t = (let f = \<lfloor>t\<rfloor>; r = t - of_int f
            in if r < 1 / 2 then f
               else if 1 / 2 < r then f + 1
               else if even f then f else f + 1)"

definition rd :: "real \<Rightarrow> real" where
  \<comment> \<open>rounding to 53 bits, with the exponent unbounded above\<close>
  "rd x = of_int (rne (x / ulp x)) * ulp x"

definition round_double :: "real \<Rightarrow> double" where
  "round_double x =
     (let r = rd x
      in if 2 ^ 1024 \<le> r then PInf
         else if r \<le> - (2 ^ 1024) then MInf
         else Finite r)"

definition is_double :: "double \<Rightarrow> bool" where
  \<comment> \<open>a value of the type that is a double: an infinity, NaN, or a finite number that
      rounding leaves as it is\<close>
  "is_double v = (case v of Finite x \<Rightarrow> round_double x = Finite x | _ \<Rightarrow> True)"

definition finite_double :: "double \<Rightarrow> bool" where
  "finite_double v = (case v of Finite x \<Rightarrow> True | _ \<Rightarrow> False)"

fun dneg :: "double \<Rightarrow> double" where
  "dneg (Finite a) = Finite (- a)"
| "dneg PInf = MInf"
| "dneg MInf = PInf"
| "dneg NaN = NaN"

fun dadd :: "double \<Rightarrow> double \<Rightarrow> double" where
  "dadd (Finite a) (Finite b) = round_double (a + b)"
| "dadd NaN _ = NaN"
| "dadd _ NaN = NaN"
| "dadd PInf MInf = NaN"
| "dadd MInf PInf = NaN"
| "dadd PInf _ = PInf"
| "dadd _ PInf = PInf"
| "dadd MInf _ = MInf"
| "dadd _ MInf = MInf"

definition dsub :: "double \<Rightarrow> double \<Rightarrow> double" where
  "dsub a b = dadd a (dneg b)"

fun dmul :: "double \<Rightarrow> double \<Rightarrow> double" where
  "dmul (Finite a) (Finite b) = round_double (a * b)"
| "dmul NaN _ = NaN"
| "dmul _ NaN = NaN"
| "dmul (Finite a) PInf = (if a = 0 then NaN else if 0 < a then PInf else MInf)"
| "dmul (Finite a) MInf = (if a = 0 then NaN else if 0 < a then MInf else PInf)"
| "dmul PInf (Finite b) = (if b = 0 then NaN else if 0 < b then PInf else MInf)"
| "dmul MInf (Finite b) = (if b = 0 then NaN else if 0 < b then MInf else PInf)"
| "dmul PInf PInf = PInf"
| "dmul PInf MInf = MInf"
| "dmul MInf PInf = MInf"
| "dmul MInf MInf = PInf"

fun dless :: "double \<Rightarrow> double \<Rightarrow> bool" where
  "dless (Finite a) (Finite b) = (a < b)"
| "dless NaN _ = False"
| "dless _ NaN = False"
| "dless MInf MInf = False"
| "dless MInf _ = True"
| "dless _ MInf = False"
| "dless PInf _ = False"
| "dless _ PInf = True"

definition dmax :: "double \<Rightarrow> double \<Rightarrow> double" where
  \<comment> \<open>\<open>std::max(a, b)\<close>, that is \<open>(a < b) ? b : a\<close>\<close>
  "dmax a b = (if dless a b then b else a)"

definition dsum :: "double list \<Rightarrow> double" where
  \<comment> \<open>the sum of a list of doubles, accumulated from the left\<close>
  "dsum ps = foldl dadd (Finite 0) ps"

section \<open>Vectors and dense matrices\<close>

text \<open>
  A vector is the list of its entries.  A \<open>DenseMatrix\<close> has a height, a width and its
  entries stored column by column, entry \<open>(i, j)\<close> at position \<open>i + j * height\<close>.  The type
  of the entries is a parameter: \<open>double\<close> for \<open>LaxFriedrichs\<close>, whose claims are about the
  numbers it returns, and \<open>real\<close> for \<open>ConvergenceCheck\<close>, where \<open>Vector\<close> is a list
  of real numbers: what is proved about it (that \<open>tol\<close> is not read, the value of \<open>uOld\<close>)
  does not depend on the arithmetic.
\<close>

type_synonym Vector = "real list"

record 'n DenseMatrix =
  Height :: nat
  Width :: nat
  Data :: "'n list"

definition Elem :: "'n DenseMatrix \<Rightarrow> nat \<Rightarrow> nat \<Rightarrow> 'n" where
  "Elem A i j = Data A ! (i + j * Height A)"

text \<open>
  Modelled from the spec: the routines of \<open>Vector\<close> and \<open>DenseMatrix\<close> that
  \<open>fe_evol.cpp\<close> calls (\<open>linalg/vector.cpp\<close>, \<open>linalg/densemat.cpp\<close>) are not
  among the sources.  They are given the meaning of the operations in the spec's
  formula \<open>F = 0.5*(F1+F2)\<cdot>n + 0.5*ws*(u1-u2)\<close>: entrywise sum and difference,
  scaling, and the product of a matrix with a vector, each entry of which is summed
  over the columns from the left.  A call with incompatible sizes, or on a matrix with
  fewer stored entries than its height and width ask for, is a failed assertion.
\<close>

definition DenseMatrix_add_assign ::
  "double DenseMatrix \<Rightarrow> double DenseMatrix \<Rightarrow> mfem_error + double DenseMatrix" where
  \<comment> \<open>\<open>A += B\<close>\<close>
  "DenseMatrix_add_assign A B =
     (if Height A = Height B \<and> Width A = Width B \<and> length (Data A) = length (Data B)
      then Inr (A\<lparr>Data := map2 dadd (Data A) (Data B)\<rparr>)
      else Inl (MFEM_ASSERT ''incompatible matrix sizes.''))"

definition DenseMatrix_Mult ::
  "double DenseMatrix \<Rightarrow> double list \<Rightarrow> double list \<Rightarrow> mfem_error + double list" where
  \<comment> \<open>\<open>A.Mult(x, y)\<close>: the new value of \<open>y\<close>, whose size is not changed\<close>
  "DenseMatrix_Mult A x y =
     (if Height A = length y \<and> Width A = length x \<and> length (Data A) = Height A * Width A
      then Inr (map (\<lambda>i. dsum (map (\<lambda>j. dmul (Elem A i j) (x ! j)) [0..<Width A]))
                    [0..<Height A])
      else Inl (MFEM_ASSERT ''incompatible dimensions''))"

definition subtract ::
  "double \<Rightarrow> double list \<Rightarrow> double list \<Rightarrow> double list \<Rightarrow> mfem_error + double list" where
  \<comment> \<open>\<open>subtract(a, x, y, z)\<close>: the new value of \<open>z\<close>, that is \<open>a * (x - y)\<close>\<close>
  "subtract a x y zv =
     (if length x = length y \<and> length x = length zv
      then Inr (map2 (\<lambda>xi yi. dmul a (dsub xi yi)) x y)
      else Inl (MFEM_ASSERT ''incompatible Vectors!''))"

definition Vector_add_assign :: "double list \<Rightarrow> double list \<Rightarrow> mfem_error + double list" where
  \<comment> \<open>\<open>y += v\<close>\<close>
  "Vector_add_assign y v =
     (if length y = length v then Inr (map2 dadd y v)
      else Inl (MFEM_ASSERT ''incompatible Vectors!''))"

definition Vector_sub_assign :: "Vector \<Rightarrow> Vector \<Rightarrow> mfem_error + Vector" where
  \<comment> \<open>\<open>y -= v\<close>\<close>
  "Vector_sub_assign y v =
     (if length y = length v then Inr (map2 (-) y v)
      else Inl (MFEM_ASSERT ''incompatible Vectors!''))"

definition Vector_mul_assign :: "double list \<Rightarrow> double \<Rightarrow> double list" where
  \<comment> \<open>\<open>y *= c\<close>\<close>
  "Vector_mul_assign y c = map (\<lambda>yi. dmul yi c) y"

definition Vector_new :: "nat \<Rightarrow> double list" where
  \<comment> \<open>\<open>Vector v(n)\<close>: \<open>n\<close> entries; only the size is read before they are written\<close>
  "Vector_new n = replicate n (Finite 0)"

text \<open>
  Modelled from the spec: \<open>Vector::Norml2\<close> is not among the sources and the spec does
  not describe it; it is taken to be what its name says, the Euclidean norm.
\<close>

definition Norml2 :: "Vector \<Rightarrow> real" where
  "Norml2 v = sqrt (\<Sum>vi\<leftarrow>v. vi\<^sup>2)"

section \<open>The evolution operator (fe_evol.cpp)\<close>

text \<open>
  \<open>HyperbolicSystem\<close> is an abstract class; the flux and the wave speed are given by
  the system that is solved.  \<open>EvaluateFlux hyp u e k i\<close> is the matrix that
  \<open>hyp->EvaluateFlux(u, FluxEval, e, k, i)\<close> stores in \<open>FluxEval\<close>.
\<close>

record 'n HyperbolicSystem =
  NumEq :: nat
  SteadyState :: bool
  EvaluateFlux :: "'n list \<Rightarrow> int \<Rightarrow> int \<Rightarrow> int \<Rightarrow> 'n DenseMatrix"
  GetWaveSpeed :: "'n list \<Rightarrow> 'n list \<Rightarrow> int \<Rightarrow> int \<Rightarrow> int \<Rightarrow> 'n"

text \<open>
  The members of \<open>FE_Evolution\<close> that \<open>LaxFriedrichs\<close> and \<open>ConvergenceCheck\<close> read or
  write.  \<open>MassMat_Mult\<close> is the product with the consistent mass matrix: the vector that
  \<open>MassMat->Mult(x, y)\<close> stores in \<open>y\<close>.
\<close>

record 'n FE_Evolution =
  hyp :: "'n HyperbolicSystem"
  MassMat_Mult :: "'n list \<Rightarrow> 'n list"
  LumpedMassMat :: "'n list"
  Flux :: "'n DenseMatrix"
  FluxNbr :: "'n DenseMatrix"
  z :: "'n list"
  uOld :: "'n list"

text \<open>
  \<open>LaxFriedrichs\<close> (lines 245 to 261), in double precision.  The members \<open>Flux\<close> and
  \<open>FluxNbr\<close> are mutable scratch space; \<open>y\<close> is the output argument, of which the size
  is read.
\<close>

definition LaxFriedrichs ::
  "double FE_Evolution \<Rightarrow> double list \<Rightarrow> double list \<Rightarrow> double list \<Rightarrow> double list
     \<Rightarrow> int \<Rightarrow> int \<Rightarrow> int \<Rightarrow> mfem_error + (double list \<times> double FE_Evolution)" where
  "LaxFriedrichs s x1 x2 normal y e k i =
     (let Flux1 = EvaluateFlux (hyp s) x1 e k i;
          FluxNbr1 = EvaluateFlux (hyp s) x2 e k i
      in (case DenseMatrix_add_assign Flux1 FluxNbr1 of
            Inl err \<Rightarrow> Inl err
          | Inr Flux2 \<Rightarrow>
             (let ws = dmax (GetWaveSpeed (hyp s) x1 normal e k i)
                            (GetWaveSpeed (hyp s) x2 normal e k i)
              in (case DenseMatrix_Mult Flux2 normal y of
                    Inl err \<Rightarrow> Inl err
                  | Inr y1 \<Rightarrow>
                     (case subtract ws x1 x2 (Vector_new (length y1)) of
                        Inl err \<Rightarrow> Inl err
                      | Inr diff \<Rightarrow>
                         (case Vector_add_assign y1 diff of
                            Inl err \<Rightarrow> Inl err
                          | Inr y2 \<Rightarrow>
                             Inr (Vector_mul_assign y2 (Finite (1 / 2)),
                                  s\<lparr>Flux := Flux2, FluxNbr := FluxNbr1\<rparr>)))))))"

text \<open>
  The loop of \<open>ConvergenceCheck\<close> for the lumped mass matrix (lines 277 to 280):
  \<open>lumped_loop M zv i n res\<close> runs the \<open>n\<close> iterations from index \<open>i\<close> on, with \<open>res\<close>
  the sum so far.  Reading an entry that does not exist is a failed assertion.
\<close>

fun lumped_loop :: "Vector \<Rightarrow> Vector \<Rightarrow> nat \<Rightarrow> nat \<Rightarrow> real \<Rightarrow> mfem_error + real" where
  "lumped_loop M zv i 0 res = Inr res"
| "lumped_loop M zv i (Suc n) res =
     (if i < length M \<and> i < length zv
      then lumped_loop M zv (Suc i) n (res + (M ! i * zv ! i)\<^sup>2)
      else Inl (MFEM_ASSERT ''invalid access of Vector entry''))"

text \<open>\<open>ConvergenceCheck\<close> (lines 263 to 286): the residual and the object afterwards.\<close>

definition ConvergenceCheck ::
  "real FE_Evolution \<Rightarrow> real \<Rightarrow> real \<Rightarrow> Vector
     \<Rightarrow> mfem_error + (real \<times> real FE_Evolution)" where
  "ConvergenceCheck s dt tol u =
     (let z0 = u
      in (case Vector_sub_assign z0 (uOld s) of
            Inl err \<Rightarrow> Inl err
          | Inr z1 \<Rightarrow>
             (if \<not> SteadyState (hyp s)
              then (let uOld1 = MassMat_Mult s z1;
                        res = Norml2 uOld1 / dt
                    in Inr (res, s\<lparr>z := z1, uOld := u\<rparr>))
              else (case lumped_loop (LumpedMassMat s) z1 0 (length u) 0 of
                      Inl err \<Rightarrow> Inl err
                    | Inr res \<Rightarrow> Inr (sqrt res / dt, s\<lparr>z := z1, uOld := u\<rparr>)))))"

definition has_size :: "'n DenseMatrix \<Rightarrow> nat \<Rightarrow> nat \<Rightarrow> bool" where
  \<comment> \<open>a well-formed matrix of the given height and width\<close>
  "has_size A h w \<longleftrightarrow> Height A = h \<and> Width A = w \<and> length (Data A) = h * w"

subsection \<open>The formula of the spec\<close>

text \<open>
  The numerical flux as the spec writes it,
  \<open>0.5 * (F1 + F2) \<cdot> n + 0.5 * ws * (u1 - u2)\<close>, in double precision: half of the product
  of the sum of the fluxes with the normal, plus half the wave speed times the
  difference of the states.
\<close>

definition LaxFriedrichs_spec ::
  "double DenseMatrix \<Rightarrow> double DenseMatrix \<Rightarrow> double \<Rightarrow> double list \<Rightarrow> double list
     \<Rightarrow> double list \<Rightarrow> nat \<Rightarrow> nat \<Rightarrow> double list" where
  "LaxFriedrichs_spec F1 F2 ws u1 u2 n m d =
     map (\<lambda>r. dadd (dmul (Finite (1 / 2))
                        (dsum (map (\<lambda>j. dmul (dadd (Elem F1 r j) (Elem F2 r j)) (n ! j))
                                   [0..<d])))
                  (dmul (dmul (Finite (1 / 2)) ws) (dsub (u1 ! r) (u2 ! r))))
         [0..<m]"

text \<open>The product of a flux with the normal, \<open>F \<cdot> n\<close>, in double precision.\<close>

definition flux_normal :: "double DenseMatrix \<Rightarrow> double list \<Rightarrow> nat \<Rightarrow> nat \<Rightarrow> double list" where
  "flux_normal F n m d =
     map (\<lambda>r. dsum (map (\<lambda>j. dmul (Elem F r j) (n ! j)) [0..<d])) [0..<m]"

subsection \<open>Results that neither overflow nor underflow\<close>

text \<open>
  Halving a number and rounding commute as long as the number is zero or at least
  \<open>2 ^ -1021\<close> in magnitude, doubling and rounding as long as it is zero or at least
  \<open>2 ^ -1022\<close>: below, the spacing of the subnormal numbers no longer follows the
  magnitude.
\<close>

definition halvable :: "real \<Rightarrow> bool" where
  "halvable x \<longleftrightarrow> x = 0 \<or> 2 powi (- 1021) \<le> \<bar>x\<bar>"

definition doublable :: "real \<Rightarrow> bool" where
  "doublable x \<longleftrightarrow> x = 0 \<or> 2 powi (- 1022) \<le> \<bar>x\<bar>"

text \<open>
  One component of \<open>LaxFriedrichs\<close> stays in range: the flux term \<open>S\<close>, the wave speed \<open>W\<close> and
  the difference \<open>D\<close> of the states are finite, the product \<open>W * D\<close> and the sum of \<open>S\<close> and
  the product round to finite doubles, and \<open>S\<close>, \<open>W\<close>, the exact product and the exact sum
  can each be halved.
\<close>

definition LF_in_range :: "double \<Rightarrow> double \<Rightarrow> double \<Rightarrow> bool" where
  "LF_in_range S W D =
     (case (S, W, D) of
        (Finite sv, Finite w, Finite dv) \<Rightarrow>
          halvable sv \<and> halvable w
          \<and> halvable (w * dv) \<and> \<bar>rd (w * dv)\<bar> < 2 ^ 1024
          \<and> halvable (sv + rd (w * dv)) \<and> \<bar>rd (sv + rd (w * dv))\<bar> < 2 ^ 1024
      | _ \<Rightarrow> False)"

text \<open>
  A product of a row of the flux with the normal stays in range when it is computed
  from the sum \<open>acc\<close> so far: every entry of the flux, every product and every partial sum
  is finite and below \<open>2 ^ 1023\<close> in magnitude, so that its double is finite, and every
  exact product and partial sum can be doubled.
\<close>

fun dot_in_range :: "real \<Rightarrow> (double \<times> double) list \<Rightarrow> bool" where
  "dot_in_range acc [] = True"
| "dot_in_range acc ((Finite f, Finite n) # rest) =
     (\<bar>f\<bar> < 2 ^ 1023
      \<and> doublable (f * n) \<and> \<bar>rd (f * n)\<bar> < 2 ^ 1023
      \<and> doublable (acc + rd (f * n)) \<and> \<bar>rd (acc + rd (f * n))\<bar> < 2 ^ 1023
      \<and> dot_in_range (rd (acc + rd (f * n))) rest)"
| "dot_in_range acc (_ # rest) = False"

section \<open>The example program (exNDH1.cpp)\<close>

subsection \<open>What the program does, as a trace\<close>

text \<open>
  \<open>main\<close> is a sequence of calls into the library.  Its model is the list of these calls in
  the order in which they are made, together with the exit code.  A call is recorded with
  the object it is made on and the text of its arguments; the objects are named by the
  variables of the source.  Destructors that run implicitly at the end of a block are not
  recorded.  The trace is that of a run in which every library call returns; \<open>main\<close>
  itself has one early return, after a rejected command line.
\<close>

datatype item =
    Text string         \<comment> \<open>a string literal\<close>
  | Num int             \<comment> \<open>an integer, printed in decimal\<close>
  | Val string          \<comment> \<open>the value of a variable, printed by the library\<close>
  | Manip string        \<comment> \<open>a stream manipulator\<close>

datatype event =
    Fn string "string list"             \<comment> \<open>a free function: name, arguments\<close>
  | New string string "string list"     \<comment> \<open>a constructor: variable, class, arguments\<close>
  | Delete string                       \<comment> \<open>\<open>delete\<close> of a variable\<close>
  | Call string string "string list"    \<comment> \<open>a member function: object, name, arguments\<close>
  | Put string "item list"              \<comment> \<open>\<open><<\<close> on a stream: stream, the items sent\<close>
  | OpenFile string string              \<comment> \<open>an \<open>ofstream\<close>: variable, file name\<close>
  | OpenSocket string string int        \<comment> \<open>a \<open>socketstream\<close>: variable, host, port\<close>

text \<open>
  What the control flow of \<open>main\<close> depends on: the rank and the number of processes that
  MPI reports, whether the option parser accepted the command line (\<open>args.Good()\<close>), the
  three toggles after parsing, and the number of serial refinements, which the program
  computes from the number of elements and the dimension of the mesh in floating point.
\<close>

record env =
  myid :: int
  num_procs :: int
  Good :: bool
  static_cond :: bool
  pa :: bool
  visualization :: bool
  ref_levels :: int

subsection \<open>Formatting of the file names\<close>

text \<open>
  \<open>os << setfill('0') << setw(6) << myid\<close>: the decimal digits of the integer, with its
  sign, filled on the left up to the width.
\<close>

fun digits :: "nat \<Rightarrow> string" where
  "digits n = (if n < 10 then [''0123456789'' ! n]
               else digits (n div 10) @ [''0123456789'' ! (n mod 10)])"

declare digits.simps [simp del]

definition show_int :: "int \<Rightarrow> string" where
  "show_int n = (if n < 0 then CHR ''-'' # digits (nat (- n)) else digits (nat n))"

definition setw_setfill :: "nat \<Rightarrow> char \<Rightarrow> string \<Rightarrow> string" where
  "setw_setfill w c str = replicate (w - length str) c @ str"

definition mesh_name :: "int \<Rightarrow> string" where
  "mesh_name rank = ''mesh.'' @ setw_setfill 6 CHR ''0'' (show_int rank)"

definition sol_name :: "int \<Rightarrow> string" where
  "sol_name rank = ''sol.'' @ setw_setfill 6 CHR ''0'' (show_int rank)"


subsection \<open>The steps of \<open>main\<close>, numbered as in the source\<close>

definition on_root :: "env \<Rightarrow> event list \<Rightarrow> event list" where
  \<comment> \<open>\<open>if (myid == 0) { ... }\<close>\<close>
  "on_root env evs = (if myid env = 0 then evs else [])"

definition init_mpi :: "event list" where
  \<comment> \<open>1. Initialize MPI.\<close>
  "init_mpi =
     [Fn ''MPI_Init'' [''&argc'', ''&argv''],
      Fn ''MPI_Comm_size'' [''MPI_COMM_WORLD'', ''&num_procs''],
      Fn ''MPI_Comm_rank'' [''MPI_COMM_WORLD'', ''&myid'']]"

definition parse_options :: "event list" where
  \<comment> \<open>2. Parse command-line options (lines 54 to 67).\<close>
  "parse_options =
     [New ''args'' ''OptionsParser'' [''argc'', ''argv''],
      Call ''args'' ''AddOption'' [''&mesh_file'', ''-m'', ''--mesh'', ''Mesh file to use.''],
      Call ''args'' ''AddOption'' [''&order'', ''-o'', ''--order'',
        ''Finite element order (polynomial degree).''],
      Call ''args'' ''AddOption'' [''&static_cond'', ''-sc'', ''--static-condensation'',
        ''-no-sc'', ''--no-static-condensation'', ''Enable static condensation.''],
      Call ''args'' ''AddOption'' [''&pa'', ''-pa'', ''--partial-assembly'', ''-no-pa'',
        ''--no-partial-assembly'', ''Enable Partial Assembly.''],
      Call ''args'' ''AddOption'' [''&visualization'', ''-vis'', ''--visualization'',
        ''-no-vis'', ''--no-visualization'', ''Enable or disable GLVis visualization.''],
      Call ''args'' ''Parse'' []]"

definition read_mesh :: "event list" where
  \<comment> \<open>3. Read the (serial) mesh from the given mesh file on all processors.\<close>
  "read_mesh =
     [New ''mesh'' ''Mesh'' [''mesh_file'', ''1'', ''1''],
      Call ''mesh'' ''Dimension'' [],
      Call ''mesh'' ''SpaceDimension'' []]"

definition refine_mesh :: "env \<Rightarrow> event list" where
  \<comment> \<open>4. Refine the serial mesh: the loop \<open>for (l = 0; l < ref_levels; l++)\<close>.\<close>
  "refine_mesh env =
     Call ''mesh'' ''GetNE'' []
       # replicate (nat (ref_levels env)) (Call ''mesh'' ''UniformRefinement'' [])"

definition par_ref_levels :: int where
  "par_ref_levels = 1"

definition parallel_mesh :: "event list" where
  \<comment> \<open>5. Define a parallel mesh by a partitioning of the serial mesh.\<close>
  "parallel_mesh =
     [New ''pmesh'' ''ParMesh'' [''MPI_COMM_WORLD'', ''*mesh''],
      Delete ''mesh'']
     @ replicate (nat par_ref_levels) (Call ''pmesh'' ''UniformRefinement'' [])
     @ [Call ''pmesh'' ''ReorientTetMesh'' []]"

definition fe_spaces :: "env \<Rightarrow> event list" where
  \<comment> \<open>6. Define a parallel finite element space on the parallel mesh.\<close>
  "fe_spaces env =
     [New ''fec'' ''ND_FECollection'' [''order'', ''dim''],
      New ''H1fec'' ''H1_FECollection'' [''order'', ''dim''],
      New ''fespace'' ''ParFiniteElementSpace'' [''pmesh'', ''fec''],
      New ''H1fespace'' ''ParFiniteElementSpace'' [''pmesh'', ''H1fec''],
      Call ''fespace'' ''GlobalTrueVSize'' []]
     @ on_root env
         [Put ''cout'' [Text ''Number of finite element unknowns: '', Val ''size'',
                        Manip ''endl'']]"

definition grid_functions :: "event list" where
  \<comment> \<open>7. Define the solution vector x and the projection p of the exact potential.\<close>
  "grid_functions =
     [New ''x'' ''ParGridFunction'' [''fespace''],
      New ''p_coef'' ''FunctionCoefficient'' [''p_exact''],
      New ''p'' ''ParGridFunction'' [''H1fespace''],
      Call ''p'' ''ProjectCoefficient'' [''p_coef''],
      New ''gradp_coef'' ''VectorFunctionCoefficient'' [''sdim'', ''gradp_exact'']]"

definition bilinear_forms :: "env \<Rightarrow> event list" where
  \<comment> \<open>8. Set up the parallel bilinear forms.\<close>
  "bilinear_forms env =
     [New ''muinv'' ''ConstantCoefficient'' [''1.0''],
      New ''sigma'' ''ConstantCoefficient'' [''1.0''],
      New ''a'' ''ParBilinearForm'' [''fespace''],
      New ''a_NDH1'' ''ParMixedBilinearForm'' [''H1fespace'', ''fespace'']]
     @ (if pa env
        then [Call ''a'' ''SetAssemblyLevel'' [''AssemblyLevel::PARTIAL''],
              Call ''a_NDH1'' ''SetAssemblyLevel'' [''AssemblyLevel::PARTIAL'']]
        else [])
     @ [Call ''a'' ''AddDomainIntegrator'' [''new VectorFEMassIntegrator(*sigma)''],
        Call ''a_NDH1'' ''AddDomainIntegrator'' [''new MixedVectorGradientIntegrator(*muinv)'']]"

definition assemble :: "env \<Rightarrow> event list" where
  \<comment> \<open>9. Assemble the parallel bilinear form and the right-hand side.\<close>
  "assemble env =
     (if static_cond env then [Call ''a'' ''EnableStaticCondensation'' []] else [])
     @ [Call ''a'' ''Assemble'' []]
     @ (if \<not> pa env then [Call ''a'' ''Finalize'' []] else [])
     @ [Call ''a_NDH1'' ''Assemble'' []]
     @ (if \<not> pa env then [Call ''a_NDH1'' ''Finalize'' []] else [])
     @ [New ''B'' ''Vector'' [''fespace->GetTrueVSize()''],
        New ''X'' ''Vector'' [''fespace->GetTrueVSize()'']]
     @ (if pa env
        then [Call ''a_NDH1'' ''Mult'' [''p'', ''x''],
              Call ''x'' ''GetTrueDofs'' [''B'']]
        else [Call ''a_NDH1'' ''ParallelAssemble'' [],
              New ''P'' ''Vector'' [''H1fespace->GetTrueVSize()''],
              Call ''p'' ''GetTrueDofs'' [''P''],
              Call ''NDH1'' ''Mult'' [''P'', ''B''],
              Delete ''NDH1''])"

definition solve :: "env \<Rightarrow> event list" where
  \<comment> \<open>10. Define and apply a parallel PCG solver for AX=B.\<close>
  "solve env =
     (if pa env
      then [New ''diag_pa'' ''ParGridFunction'' [''fespace''],
            Call ''diag_pa'' ''operator='' [''0.0''],
            Call ''a'' ''AssembleDiagonal'' [''diag_pa''],
            New ''tdiag_pa'' ''Vector'' [''fespace->GetTrueVSize()''],
            Call ''diag_pa'' ''GetTrueDofs'' [''tdiag_pa''],
            New ''ess_tdof_list'' ''Array<int>'' [],
            New ''Jacobi'' ''OperatorJacobiSmoother'' [''diag_pa'', ''ess_tdof_list'', ''1.0''],
            New ''cg'' ''CGSolver'' [''MPI_COMM_WORLD''],
            Call ''cg'' ''SetRelTol'' [''1e-12''],
            Call ''cg'' ''SetMaxIter'' [''1000''],
            Call ''cg'' ''SetPrintLevel'' [''1''],
            Call ''cg'' ''SetOperator'' [''*a''],
            Call ''cg'' ''SetPreconditioner'' [''Jacobi''],
            New ''rhs'' ''ParGridFunction'' [''fespace''],
            Call ''rhs'' ''operator='' [''x''],
            Call ''cg'' ''Mult'' [''rhs'', ''x'']]
      else [Call ''a'' ''ParallelAssemble'' [],
            New ''pcg'' ''HyprePCG'' [''*Amat''],
            Call ''pcg'' ''SetTol'' [''1e-12''],
            Call ''pcg'' ''SetMaxIter'' [''500''],
            Call ''pcg'' ''SetPrintLevel'' [''2''],
            Call ''pcg'' ''Mult'' [''B'', ''X''],
            Delete ''pcg'',
            Delete ''Amat'',
            Call ''x'' ''SetFromTrueDofs'' [''X'']])"

definition compute_error :: "env \<Rightarrow> event list" where
  \<comment> \<open>11. Compute and print the L2 norm of the error.\<close>
  "compute_error env =
     Call ''x'' ''ComputeL2Error'' [''gradp_coef'']
       # on_root env
           [Put ''cout'' [Text (CHR 0x0A # ''|| E_h - E ||_{L^2} = ''), Val ''err'',
                          Text [CHR 0x0A], Manip ''endl'']]"

definition save_files :: "env \<Rightarrow> event list" where
  \<comment> \<open>12. Save the refined mesh and the solution in parallel.\<close>
  "save_files env =
     [OpenFile ''mesh_ofs'' (mesh_name (myid env)),
      Call ''mesh_ofs'' ''precision'' [''8''],
      Call ''pmesh'' ''Print'' [''mesh_ofs''],
      OpenFile ''sol_ofs'' (sol_name (myid env)),
      Call ''sol_ofs'' ''precision'' [''8''],
      Call ''x'' ''Save'' [''sol_ofs'']]"

definition send_to_glvis :: "env \<Rightarrow> event list" where
  \<comment> \<open>13. Send the solution by socket to a GLVis server.\<close>
  "send_to_glvis env =
     (if visualization env
      then [OpenSocket ''sol_sock'' ''localhost'' 19916,
            Put ''sol_sock'' [Text ''parallel '', Num (num_procs env), Text '' '',
                              Num (myid env), Text [CHR 0x0A]],
            Call ''sol_sock'' ''precision'' [''8''],
            Put ''sol_sock'' [Text (''solution'' @ [CHR 0x0A]), Val ''*pmesh'', Val ''x'',
                              Manip ''flush'']]
      else [])"

definition free_memory :: "event list" where
  \<comment> \<open>14. Free the used memory.\<close>
  "free_memory =
     [Delete ''a'', Delete ''a_NDH1'', Delete ''sigma'', Delete ''muinv'', Delete ''fespace'',
      Delete ''H1fespace'', Delete ''fec'', Delete ''H1fec'', Delete ''pmesh'']"

text \<open>\<open>main\<close> (lines 39 to 282): the calls made and the exit code.\<close>

definition main :: "env \<Rightarrow> event list \<times> int" where
  "main env =
     (if \<not> Good env
      then (init_mpi @ parse_options
              @ on_root env [Call ''args'' ''PrintUsage'' [''cout'']]
              @ [Fn ''MPI_Finalize'' []],
            1)
      else (init_mpi @ parse_options
              @ on_root env [Call ''args'' ''PrintOptions'' [''cout'']]
              @ read_mesh @ refine_mesh env @ parallel_mesh
              @ fe_spaces env
              @ grid_functions
              @ bilinear_forms env
              @ assemble env
              @ solve env
              @ compute_error env
              @ save_files env
              @ send_to_glvis env
              @ free_memory
              @ [Fn ''MPI_Finalize'' []],
            0))"

subsection \<open>The steps of the workflow\<close>

text \<open>
  The spec names seven steps: parse options, build mesh, build function spaces, assemble
  operator, solve linear system, compute error, write output.  \<open>step_of\<close> says to which
  of them a library call belongs, by what the call does: step 0 are the calls on the option
  parser, step 1 the construction and refinement of a mesh, step 2 the construction of
  a finite element collection or space, step 3 the construction and assembly of a
  bilinear form, step 4 the construction and application of the linear solver, step 5 the
  computation of the error, step 6 the opening of an output stream and the printing of the
  mesh or the solution to it.  Any other call (a query, a message on the console, the
  release of memory) belongs to none.
\<close>

definition step_of :: "event \<Rightarrow> nat option" where
  "step_of ev =
     (case ev of
        New v cls as \<Rightarrow>
          if cls = ''OptionsParser'' then Some 0
          else if cls \<in> set [''Mesh'', ''ParMesh''] then Some 1
          else if cls \<in> set [''ND_FECollection'', ''H1_FECollection'',
                               ''ParFiniteElementSpace''] then Some 2
          else if cls \<in> set [''ParBilinearForm'', ''ParMixedBilinearForm''] then Some 3
          else if cls \<in> set [''CGSolver'', ''HyprePCG'', ''OperatorJacobiSmoother'']
          then Some 4
          else None
      | Call v f as \<Rightarrow>
          if v = ''args'' then Some 0
          else if f \<in> set [''UniformRefinement'', ''ReorientTetMesh''] then Some 1
          else if f \<in> set [''SetAssemblyLevel'', ''AddDomainIntegrator'',
                             ''EnableStaticCondensation'', ''Assemble'', ''Finalize'',
                             ''ParallelAssemble'', ''AssembleDiagonal''] then Some 3
          else if v \<in> set [''cg'', ''pcg''] then Some 4
          else if f = ''ComputeL2Error'' then Some 5
          else if f \<in> set [''Print'', ''Save''] then Some 6
          else None
      | Put v items \<Rightarrow> if v = ''cout'' then None else Some 6
      | OpenFile v name \<Rightarrow> Some 6
      | OpenSocket v host port \<Rightarrow> Some 6
      | _ \<Rightarrow> None)"

definition steps :: "event list \<Rightarrow> nat list" where
  \<comment> \<open>the steps of the calls of a trace, in the order of the trace\<close>
  "steps tr = List.map_filter step_of tr"

text \<open>
  The calls that carry out the steps: the parsing of the command line, the construction of
  the serial and of the parallel mesh, the construction of the two finite element spaces,
  the assembly of the two bilinear forms, the application of the solver to the linear
  system (\<open>cg.Mult\<close> with partial assembly, \<open>pcg->Mult\<close> without), the computation of the
  error, and the printing of the mesh and of the solution to their files.
\<close>

definition workflow_calls :: "event list" where
  "workflow_calls =
     [Call ''args'' ''Parse'' [],
      New ''mesh'' ''Mesh'' [''mesh_file'', ''1'', ''1''],
      New ''pmesh'' ''ParMesh'' [''MPI_COMM_WORLD'', ''*mesh''],
      New ''fespace'' ''ParFiniteElementSpace'' [''pmesh'', ''fec''],
      New ''H1fespace'' ''ParFiniteElementSpace'' [''pmesh'', ''H1fec''],
      Call ''a'' ''Assemble'' [],
      Call ''a_NDH1'' ''Assemble'' [],
      Call ''cg'' ''Mult'' [''rhs'', ''x''],
      Call ''pcg'' ''Mult'' [''B'', ''X''],
      Call ''x'' ''ComputeL2Error'' [''gradp_coef''],
      Call ''pmesh'' ''Print'' [''mesh_ofs''],
      Call ''x'' ''Save'' [''sol_ofs'']]"

definition workflow :: "event list \<Rightarrow> event list" where
  \<comment> \<open>the calls of a trace that carry out a step, in the order of the trace\<close>
  "workflow tr = filter (\<lambda>ev. ev \<in> set workflow_calls) tr"

subsection \<open>Observations on a trace\<close>

fun option_of :: "event \<Rightarrow> string list option" where
  "option_of (Call v f as) = (if v = ''args'' \<and> f = ''AddOption'' then Some as else None)"
| "option_of _ = None"

definition registered_options :: "event list \<Rightarrow> string list list" where
  \<comment> \<open>the arguments of the calls of \<open>args.AddOption\<close>, in order\<close>
  "registered_options tr = List.map_filter option_of tr"

fun class_of :: "event \<Rightarrow> string option" where
  "class_of (New v cls as) = Some cls"
| "class_of _ = None"

definition constructed :: "event list \<Rightarrow> string list" where
  \<comment> \<open>the classes of the objects constructed, in order\<close>
  "constructed tr = List.map_filter class_of tr"





definition successful :: "env \<Rightarrow> bool" where
  \<comment> \<open>a run that ends with exit code 0\<close>
  "successful env \<longleftrightarrow> snd (main env) = 0"

section \<open>Concrete instances\<close>

text \<open>
  A small system on which the operations are evaluated: two equations in two space
  dimensions, the flux of the state \<open>u\<close> is the matrix with the columns \<open>u\<close> and \<open>2 u\<close>, the
  wave speed is the modulus of the first component.  Its numbers are real, for
  \<open>ConvergenceCheck\<close>.
\<close>

definition example_system :: "real HyperbolicSystem" where
  "example_system =
     \<lparr>NumEq = 2, SteadyState = True,
      EvaluateFlux = (\<lambda>u e k i.
        \<lparr>Height = 2, Width = 2, Data = [u ! 0, u ! 1, 2 * u ! 0, 2 * u ! 1]\<rparr>),
      GetWaveSpeed = (\<lambda>u n e k i. \<bar>u ! 0\<bar>)\<rparr>"

definition example_state :: "real FE_Evolution" where
  "example_state =
     \<lparr>hyp = example_system, MassMat_Mult = (\<lambda>v. v), LumpedMassMat = [1, 2],
      Flux = \<lparr>Height = 2, Width = 2, Data = [0, 0, 0, 0]\<rparr>,
      FluxNbr = \<lparr>Height = 2, Width = 2, Data = [0, 0, 0, 0]\<rparr>,
      z = [0, 0], uOld = [1, 1]\<rparr>"

text \<open>The same system in double precision, with the first component as the wave speed.\<close>

definition example_system_double :: "double HyperbolicSystem" where
  "example_system_double =
     \<lparr>NumEq = 2, SteadyState = True,
      EvaluateFlux = (\<lambda>u e k i.
        \<lparr>Height = 2, Width = 2,
         Data = [u ! 0, u ! 1, dmul (Finite 2) (u ! 0), dmul (Finite 2) (u ! 1)]\<rparr>),
      GetWaveSpeed = (\<lambda>u n e k i. u ! 0)\<rparr>"

definition example_state_double :: "double FE_Evolution" where
  "example_state_double =
     \<lparr>hyp = example_system_double, MassMat_Mult = (\<lambda>v. v),
      LumpedMassMat = [Finite 1, Finite 2],
      Flux = \<lparr>Height = 2, Width = 2, Data = [Finite 0, Finite 0, Finite 0, Finite 0]\<rparr>,
      FluxNbr = \<lparr>Height = 2, Width = 2, Data = [Finite 0, Finite 0, Finite 0, Finite 0]\<rparr>,
      z = [Finite 0, Finite 0], uOld = [Finite 1, Finite 1]\<rparr>"

text \<open>
  Linear advection in one space dimension with velocity one: one equation, the flux of
  the state \<open>u\<close> is \<open>u\<close>, the wave speed is one.
\<close>

definition advection_system :: "double HyperbolicSystem" where
  "advection_system =
     \<lparr>NumEq = 1, SteadyState = False,
      EvaluateFlux = (\<lambda>u e k i. \<lparr>Height = 1, Width = 1, Data = [u ! 0]\<rparr>),
      GetWaveSpeed = (\<lambda>u n e k i. Finite 1)\<rparr>"

definition advection_state :: "double FE_Evolution" where
  "advection_state =
     \<lparr>hyp = advection_system, MassMat_Mult = (\<lambda>v. v), LumpedMassMat = [Finite 1],
      Flux = \<lparr>Height = 1, Width = 1, Data = [Finite 0]\<rparr>,
      FluxNbr = \<lparr>Height = 1, Width = 1, Data = [Finite 0]\<rparr>,
      z = [Finite 0], uOld = [Finite 0]\<rparr>"

text \<open>Rank 3 of 4 processes, with an accepted and with a rejected command line.\<close>

definition example_env :: env where
  "example_env =
     \<lparr>myid = 3, num_procs = 4, Good = True, static_cond = False, pa = False,
      visualization = True, ref_levels = 2\<rparr>"

definition rejected_env :: env where
  "rejected_env =
     \<lparr>myid = 0, num_procs = 4, Good = False, static_cond = False, pa = False,
      visualization = True, ref_levels = 2\<rparr>"

section \<open>Properties of the constructor\<close>

lemma of_char_int_zero_iff: "(of_char c :: int) = 0 \<longleftrightarrow> c = CHR 0x00"
  using of_char_eq_iff [of c "CHR 0x00", where ?'a = int] by simp

lemma strncmp_zero_iff_prefix:
  "CHR 0x00 \<notin> set p \<Longrightarrow> strncmp s p (length p) = 0 \<longleftrightarrow> prefix p s"
proof (induction p arbitrary: s)
  case Nil
  then show ?case by simp
next
  case (Cons c p)
  show ?case
  proof (cases s)
    case Nil
    with Cons.prems show ?thesis by (auto simp: of_char_int_zero_iff)
  next
    case (Cons d s')
    with Cons.prems Cons.IH [of s'] show ?thesis by auto
  qed
qed

lemma strncmp_L2: "strncmp s ''L2'' 2 = 0 \<longleftrightarrow> prefix ''L2'' s"
  using strncmp_zero_iff_prefix [of "''L2''" s] by (simp add: eval_nat_numeral)

lemma strncmp_L2_T2: "strncmp s ''L2_T2'' 5 = 0 \<longleftrightarrow> prefix ''L2_T2'' s"
  using strncmp_zero_iff_prefix [of "''L2_T2''" s] by (simp add: eval_nat_numeral)

lemma prefix_L2_T2_L2: "prefix ''L2_T2'' s \<Longrightarrow> prefix ''L2'' s"
  by (auto simp: prefix_def)

lemma FE_Evolution_new_accepts:
  "FE_Evolution_new \<lparr>FEColl_Name = ''L2_T2_2D_P1'', Elem1No = [0, 0, 0, 0]\<rparr> members
     = Inr members"
  by (simp add: FE_Evolution_new_def strncmp_L2 strncmp_L2_T2)

text \<open>
  Claim C2.  The constructor rejects a finite element space that is not L2 conforming:
  whenever the name of the finite element collection does not begin with \<open>L2\<close>, the
  construction ends in \<open>MFEM_ABORT\<close> with the message of line 12, and no object is
  returned.
\<close>

theorem FE_Evolution_new_rejects_non_DG:
  "\<not> prefix ''L2'' (FEColl_Name fes) \<Longrightarrow>
     FE_Evolution_new fes members
       = Inl (MFEM_ABORT ''FiniteElementSpace must be L2 conforming (DG).'')"
  by (simp add: FE_Evolution_new_def strncmp_L2)

theorem FE_Evolution_new_rejects_non_DG_witness:
  "\<not> prefix ''L2'' (FEColl_Name \<lparr>FEColl_Name = ''H1_3D_P2'', Elem1No = [0, 0]\<rparr>)
   \<and> FE_Evolution_new \<lparr>FEColl_Name = ''H1_3D_P2'', Elem1No = [0, 0]\<rparr> example_state
       = Inl (MFEM_ABORT ''FiniteElementSpace must be L2 conforming (DG).'')"
proof -
  have h: "\<not> prefix ''L2'' (FEColl_Name \<lparr>FEColl_Name = ''H1_3D_P2'', Elem1No = [0, 0]\<rparr>)"
    by simp
  from h FE_Evolution_new_rejects_non_DG [OF h, of example_state] show ?thesis
    by (intro conjI)
qed

text \<open>
  Claim C8.  The constructor aborts for every finite element collection whose name does
  not begin with \<open>L2_T2\<close>: with the message of line 12 when the name does not begin with
  \<open>L2\<close>, and else, for an L2 conforming space in another basis, with the message of
  line 16 about the Bernstein basis.
\<close>

theorem FE_Evolution_new_rejects_non_Bernstein:
  "\<not> prefix ''L2_T2'' (FEColl_Name fes) \<Longrightarrow>
     FE_Evolution_new fes members
       = Inl (MFEM_ABORT
               (if prefix ''L2'' (FEColl_Name fes)
                then ''Shape functions must be represented in Bernstein basis.''
                else ''FiniteElementSpace must be L2 conforming (DG).''))"
  by (simp add: FE_Evolution_new_def strncmp_L2 strncmp_L2_T2)

theorem FE_Evolution_new_rejects_non_Bernstein_witness:
  "\<not> prefix ''L2_T2'' (FEColl_Name \<lparr>FEColl_Name = ''L2_3D_P2'', Elem1No = [0, 0]\<rparr>)
   \<and> FE_Evolution_new \<lparr>FEColl_Name = ''L2_3D_P2'', Elem1No = [0, 0]\<rparr> example_state
       = Inl (MFEM_ABORT ''Shape functions must be represented in Bernstein basis.'')"
proof -
  have h: "\<not> prefix ''L2_T2'' (FEColl_Name \<lparr>FEColl_Name = ''L2_3D_P2'', Elem1No = [0, 0]\<rparr>)"
    by simp
  from h FE_Evolution_new_rejects_non_Bernstein [OF h, of example_state] show ?thesis
    by simp
qed

section \<open>Properties of rounding\<close>

lemma rne_of_int [simp]: "rne (of_int q) = q"
  by (simp add: rne_def)

lemma ulp_pos [simp]: "0 < ulp x"
  by (simp add: ulp_def)

lemma ulp_nonzero [simp]: "ulp x \<noteq> 0"
  by (simp add: ulp_def)

lemma rne_0 [simp]: "rne 0 = 0"
  using rne_of_int [of 0] by simp

lemma rd_0 [simp]: "rd 0 = 0"
  by (simp add: rd_def)

lemma two_powr_int: "(2::real) powr of_int n = 2 powi n"
  by (simp add: powr_real_of_int')

lemma floor_log2_eq:
  assumes "2 powi k \<le> \<bar>x\<bar>" "\<bar>x\<bar> < 2 powi (k + 1)"
  shows "\<lfloor>log 2 \<bar>x\<bar>\<rfloor> = k"
proof -
  have "(0::real) < 2 powi k" by simp
  with assms(1) have pos: "0 < \<bar>x\<bar>" by linarith
  have "2 powr of_int k \<le> \<bar>x\<bar>" using assms(1) by (simp only: two_powr_int)
  then have "of_int k \<le> log 2 \<bar>x\<bar>"
    using pos le_log_iff [of 2 "\<bar>x\<bar>" "of_int k"] by simp
  moreover have "\<bar>x\<bar> < 2 powr of_int (k + 1)" using assms(2) by (simp only: two_powr_int)
  then have "log 2 \<bar>x\<bar> < of_int (k + 1)"
    using pos log_less_iff [of 2 "\<bar>x\<bar>" "of_int (k + 1)"] by simp
  ultimately show ?thesis by (intro floor_unique) simp_all
qed

lemma floor_log2_bounds:
  assumes "x \<noteq> 0"
  shows "2 powi \<lfloor>log 2 \<bar>x\<bar>\<rfloor> \<le> \<bar>x\<bar>" and "\<bar>x\<bar> < 2 powi (\<lfloor>log 2 \<bar>x\<bar>\<rfloor> + 1)"
proof -
  have pos: "0 < \<bar>x\<bar>" using assms by simp
  have "of_int \<lfloor>log 2 \<bar>x\<bar>\<rfloor> \<le> log 2 \<bar>x\<bar>" by simp
  then have "2 powr of_int \<lfloor>log 2 \<bar>x\<bar>\<rfloor> \<le> \<bar>x\<bar>"
    using pos le_log_iff [of 2 "\<bar>x\<bar>" "of_int \<lfloor>log 2 \<bar>x\<bar>\<rfloor>"] by simp
  then show "2 powi \<lfloor>log 2 \<bar>x\<bar>\<rfloor> \<le> \<bar>x\<bar>" by (simp only: two_powr_int)
  have "log 2 \<bar>x\<bar> < of_int (\<lfloor>log 2 \<bar>x\<bar>\<rfloor> + 1)" by linarith
  then have "\<bar>x\<bar> < 2 powr of_int (\<lfloor>log 2 \<bar>x\<bar>\<rfloor> + 1)"
    using pos log_less_iff [of 2 "\<bar>x\<bar>" "of_int (\<lfloor>log 2 \<bar>x\<bar>\<rfloor> + 1)"] by simp
  then show "\<bar>x\<bar> < 2 powi (\<lfloor>log 2 \<bar>x\<bar>\<rfloor> + 1)" by (simp only: two_powr_int)
qed

lemma expo_normal:
  assumes "2 powi k \<le> \<bar>x\<bar>" "\<bar>x\<bar> < 2 powi (k + 1)" "- 1022 \<le> k"
  shows "expo x = k"
  using floor_log2_eq [OF assms(1,2)] assms(3) by (simp add: expo_def)

lemma expo_subnormal:
  assumes "x \<noteq> 0" "\<bar>x\<bar> < 2 powi (- 1022)"
  shows "expo x = - 1022"
proof -
  have "\<lfloor>log 2 \<bar>x\<bar>\<rfloor> < - 1022"
  proof (rule ccontr)
    assume "\<not> \<lfloor>log 2 \<bar>x\<bar>\<rfloor> < - 1022"
    then have "(2::real) powi (- 1022) \<le> 2 powi \<lfloor>log 2 \<bar>x\<bar>\<rfloor>"
      by (intro power_int_increasing) simp_all
    with floor_log2_bounds(1) [OF assms(1)] assms(2) show False by linarith
  qed
  then show ?thesis by (simp add: expo_def)
qed

lemma expo_ge: "- 1022 \<le> expo x"
  by (simp add: expo_def)

lemma abs_less_expo: "\<bar>x\<bar> < 2 powi (expo x + 1)"
proof (cases "x = 0")
  case True
  then show ?thesis by simp
next
  case False
  have "(2::real) powi (\<lfloor>log 2 \<bar>x\<bar>\<rfloor> + 1) \<le> 2 powi (expo x + 1)"
    by (intro power_int_increasing) (simp_all add: expo_def)
  with floor_log2_bounds(2) [OF False] show ?thesis by linarith
qed

lemma expo_double:
  assumes "2 powi (- 1022) \<le> \<bar>x\<bar>"
  shows "expo (2 * x) = expo x + 1"
proof -
  have "(0::real) < 2 powi (- 1022)" by simp
  with assms have nz: "x \<noteq> 0" by auto
  define k where "k = \<lfloor>log 2 \<bar>x\<bar>\<rfloor>"
  have b: "2 powi k \<le> \<bar>x\<bar>" "\<bar>x\<bar> < 2 powi (k + 1)"
    using floor_log2_bounds [OF nz] by (simp_all add: k_def)
  have k: "- 1022 \<le> k"
  proof (rule ccontr)
    assume "\<not> - 1022 \<le> k"
    then have "(2::real) powi (k + 1) \<le> 2 powi (- 1022)"
      by (intro power_int_increasing) simp_all
    with b(2) assms show False by linarith
  qed
  have e: "expo x = k" using b k by (rule expo_normal)
  have "2 powi (k + 1) \<le> \<bar>2 * x\<bar>" "\<bar>2 * x\<bar> < 2 powi (k + 1 + 1)"
    using b by (simp_all add: power_int_add abs_mult)
  then have "expo (2 * x) = k + 1" using k by (intro expo_normal) simp_all
  with e show ?thesis by simp
qed

lemma rd_double:
  assumes "x = 0 \<or> 2 powi (- 1022) \<le> \<bar>x\<bar>"
  shows "rd (2 * x) = 2 * rd x"
proof (cases "x = 0")
  case True
  then show ?thesis by simp
next
  case False
  with assms have "expo (2 * x) = expo x + 1" by (intro expo_double) simp
  then have "ulp (2 * x) = 2 * ulp x"
    by (simp add: ulp_def power_int_add power_int_diff)
  then show ?thesis by (simp add: rd_def)
qed

lemma rd_half:
  assumes "x = 0 \<or> 2 powi (- 1021) \<le> \<bar>x\<bar>"
  shows "rd (x / 2) = rd x / 2"
proof -
  from assms have "x / 2 = 0 \<or> 2 powi (- 1022) \<le> \<bar>x / 2\<bar>"
    by (auto simp: power_int_minus field_simps)
  from rd_double [OF this] show ?thesis by simp
qed

lemma rd_representable:
  assumes "\<bar>m\<bar> < 2 ^ 53" "- 1074 \<le> k"
  shows "rd (of_int m * 2 powi k) = of_int m * 2 powi k"
proof (cases "m = 0")
  case True
  then show ?thesis by simp
next
  case False
  define x :: real where "x = of_int m * 2 powi k"
  have ax: "\<bar>x\<bar> = of_int \<bar>m\<bar> * 2 powi k" by (simp add: x_def abs_mult)
  have "real_of_int \<bar>m\<bar> < 2 ^ 53" using assms(1) by (metis of_int_less_numeral_power_cancel_iff)
  then have "\<bar>x\<bar> < 2 ^ 53 * 2 powi k" unfolding ax by (intro mult_strict_right_mono) simp_all
  also have "\<dots> = 2 powi (k + 53)" by (simp add: power_int_add)
  finally have ub: "\<bar>x\<bar> < 2 powi (k + 53)" .
  have nz: "x \<noteq> 0" using False by (simp add: x_def)
  have "\<lfloor>log 2 \<bar>x\<bar>\<rfloor> < k + 53"
  proof (rule ccontr)
    assume "\<not> \<lfloor>log 2 \<bar>x\<bar>\<rfloor> < k + 53"
    then have "(2::real) powi (k + 53) \<le> 2 powi \<lfloor>log 2 \<bar>x\<bar>\<rfloor>"
      by (intro power_int_increasing) simp_all
    with floor_log2_bounds(1) [OF nz] ub show False by linarith
  qed
  with assms(2) have e: "expo x - 52 \<le> k" by (simp add: expo_def)
  define n where "n = nat (k - (expo x - 52))"
  have pk: "2 powi k = ulp x * (2::real) ^ n"
    using e by (simp add: ulp_def n_def power_int_add [symmetric] flip: power_int_of_nat)
  have "of_int m * 2 powi k = of_int (m * 2 ^ n) * ulp x" by (simp add: pk)
  with x_def have x2: "x = of_int (m * 2 ^ n) * ulp x" by (rule trans)
  have "of_int (m * 2 ^ n) * ulp x / ulp x = real_of_int (m * 2 ^ n)"
    by simp
  with x2 have q: "x / ulp x = of_int (m * 2 ^ n)" by metis
  then have "rne (x / ulp x) = m * 2 ^ n" by (simp only: rne_of_int)
  then have "rd x = of_int (m * 2 ^ n) * ulp x" by (simp only: rd_def)
  also have "\<dots> = x" using x2 by (rule sym)
  finally show ?thesis by (simp add: x_def)
qed

lemma rne_bounds: "\<lfloor>t\<rfloor> \<le> rne t" "rne t \<le> \<lfloor>t\<rfloor> + 1"
  by (simp_all add: rne_def Let_def)

lemma rne_abs_le:
  assumes "\<bar>t\<bar> < of_int N"
  shows "\<bar>rne t\<bar> \<le> N"
proof -
  from assms have "- of_int N < t" "t < of_int N" by linarith+
  then have "- N \<le> \<lfloor>t\<rfloor>" "\<lfloor>t\<rfloor> < N" by linarith+
  with rne_bounds [of t] show ?thesis by linarith
qed

lemma rd_eq: "rd x = of_int (rne (x / ulp x)) * 2 powi (expo x - 52)"
  by (simp add: rd_def ulp_def)

lemma mantissa_bound: "\<bar>rne (x / ulp x)\<bar> \<le> 2 ^ 53"
proof -
  have "\<bar>x\<bar> < 2 powi (expo x + 1)" by (rule abs_less_expo)
  also have "\<dots> = 2 ^ 53 * ulp x" by (simp add: ulp_def power_int_add power_int_diff)
  finally have "\<bar>x\<bar> / ulp x < 2 ^ 53" by (simp add: pos_divide_less_eq)
  moreover have "\<bar>ulp x\<bar> = ulp x" using ulp_pos [of x] by linarith
  ultimately have "\<bar>x / ulp x\<bar> < of_int (2 ^ 53)" by (simp add: abs_divide)
  then show ?thesis by (rule rne_abs_le)
qed

lemma rd_rd: "rd (rd x) = rd x"
proof -
  define m where "m = rne (x / ulp x)"
  define k where "k = expo x - 52"
  have r: "rd x = of_int m * 2 powi k" by (simp add: rd_eq m_def k_def)
  have k: "- 1074 \<le> k" using expo_ge [of x] by (simp add: k_def)
  have m: "\<bar>m\<bar> \<le> 2 ^ 53" unfolding m_def by (rule mantissa_bound)
  show ?thesis
  proof (cases "\<bar>m\<bar> < 2 ^ 53")
    case True
    then show ?thesis unfolding r using k by (rule rd_representable)
  next
    case False
    with m have "m = 2 ^ 53 \<or> m = - (2 ^ 53)" by linarith
    then have "rd x = of_int 1 * 2 powi (k + 53) \<or> rd x = of_int (- 1) * 2 powi (k + 53)"
      unfolding r by (auto simp: power_int_add)
    moreover have "rd (of_int 1 * 2 powi (k + 53)) = of_int 1 * 2 powi (k + 53)"
      using k by (intro rd_representable) simp_all
    moreover have "rd (of_int (- 1) * 2 powi (k + 53)) = of_int (- 1) * 2 powi (k + 53)"
      using k by (intro rd_representable) simp_all
    ultimately show ?thesis by metis
  qed
qed

lemma rd_twice:
  assumes "rd f = f"
  shows "rd (2 * f) = 2 * f"
proof (cases "f = 0 \<or> 2 powi (- 1022) \<le> \<bar>f\<bar>")
  case True
  from rd_double [OF this] assms show ?thesis by simp
next
  case False
  then have nz: "f \<noteq> 0" and small: "\<bar>f\<bar> < 2 powi (- 1022)" by simp_all
  then have e: "expo f = - 1022" by (rule expo_subnormal)
  define m where "m = rne (f / ulp f)"
  have u: "ulp f = 2 powi (- 1074)" by (simp add: ulp_def e)
  have f: "f = of_int m * 2 powi (- 1074)"
    using assms by (simp add: rd_def m_def u)
  have "\<bar>of_int m * 2 powi (- 1074)\<bar> < (2::real) powi (- 1022)" using small f by simp
  then have "\<bar>real_of_int m\<bar> < 2 ^ 52"
    by (simp add: abs_mult power_int_minus field_simps)
  then have "real_of_int \<bar>m\<bar> < real_of_int (2 ^ 52)" by simp
  then have "\<bar>m\<bar> < 2 ^ 52" by (simp only: of_int_less_iff)
  then have "\<bar>2 * m\<bar> < 2 ^ 53" by simp
  then have A: "rd (of_int (2 * m) * 2 powi (- 1074)) = of_int (2 * m) * 2 powi (- 1074)"
    by (intro rd_representable) simp_all
  have "2 * (of_int m * 2 powi (- 1074)) = real_of_int (2 * m) * 2 powi (- 1074)"
    by (simp only: of_int_mult of_int_numeral mult.assoc)
  with f have B: "2 * f = of_int (2 * m) * 2 powi (- 1074)" by (simp only:)
  show ?thesis unfolding B by (rule A)
qed


lemma round_double_Finite: "\<bar>rd x\<bar> < 2 ^ 1024 \<Longrightarrow> round_double x = Finite (rd x)"
  by (simp add: round_double_def Let_def abs_less_iff not_le)

lemma round_double_exact: "rd x = x \<Longrightarrow> \<bar>x\<bar> < 2 ^ 1024 \<Longrightarrow> round_double x = Finite x"
  using round_double_Finite [of x] by simp

lemma round_double_FiniteD:
  assumes "round_double x = Finite r"
  shows "r = rd x" and "\<bar>rd x\<bar> < 2 ^ 1024"
  using assms by (auto simp: round_double_def Let_def abs_less_iff split: if_splits)

lemma round_double_PInf: "2 ^ 1024 \<le> rd x \<Longrightarrow> round_double x = PInf"
  by (simp add: round_double_def)

lemma is_double_Finite: "is_double (Finite x) \<longleftrightarrow> rd x = x \<and> \<bar>x\<bar> < 2 ^ 1024"
proof
  assume "is_double (Finite x)"
  then have "round_double x = Finite x" by (simp add: is_double_def)
  from round_double_FiniteD [OF this] show "rd x = x \<and> \<bar>x\<bar> < 2 ^ 1024" by simp
next
  assume "rd x = x \<and> \<bar>x\<bar> < 2 ^ 1024"
  then show "is_double (Finite x)" by (simp add: is_double_def round_double_exact)
qed

lemma is_double_round_double: "is_double (round_double x)"
proof (cases "round_double x")
  case (Finite r)
  from round_double_FiniteD [OF this] have "rd r = r" "\<bar>r\<bar> < 2 ^ 1024"
    by (simp_all add: rd_rd)
  with Finite show ?thesis by (simp add: is_double_Finite)
qed (simp_all add: is_double_def)

lemma is_double_dadd: "is_double (dadd a b)"
  by (cases a; cases b) (simp_all add: is_double_round_double, simp_all add: is_double_def)

lemma is_double_foldl: "is_double acc \<Longrightarrow> is_double (foldl dadd acc ps)"
  by (induction ps arbitrary: acc) (simp_all add: is_double_dadd)

lemma is_double_dsum: "is_double (dsum ps)"
  unfolding dsum_def by (rule is_double_foldl) (simp add: is_double_Finite)

section \<open>Properties of the Lax-Friedrichs flux\<close>

lemma index_in_range: "i < h \<Longrightarrow> j < w \<Longrightarrow> i + j * h < h * (w::nat)"
proof -
  assume a: "i < h" "j < w"
  then have "i + j * h < h + j * h" by simp
  also have "\<dots> = (Suc j) * h" by simp
  also from a have "\<dots> \<le> w * h" by (intro mult_le_mono1) simp
  finally show ?thesis by (simp add: mult.commute)
qed

lemma Elem_add_assign:
  assumes "has_size A h w" "has_size B h w" "i < h" "j < w"
  shows "Elem (A\<lparr>Data := map2 dadd (Data A) (Data B)\<rparr>) i j = dadd (Elem A i j) (Elem B i j)"
  using assms index_in_range [of i h j w] by (simp add: Elem_def has_size_def)

text \<open>
  What \<open>LaxFriedrichs\<close> computes, in the order of the code: the sum of the two fluxes is
  applied to the normal, the scaled difference of the states is added, and the result
  is halved, each operation rounded.  The arguments are distinct objects: \<open>y\<close> is neither
  \<open>x1\<close>, \<open>x2\<close> nor \<open>normal\<close>.
\<close>

lemma LaxFriedrichs_value:
  assumes F1: "has_size (EvaluateFlux (hyp s) x1 e k i) m d"
    and F2: "has_size (EvaluateFlux (hyp s) x2 e k i) m d"
    and len: "length x1 = m" "length x2 = m" "length y = m" "length normal = d"
  shows "LaxFriedrichs s x1 x2 normal y e k i =
     Inr (map (\<lambda>n. dmul
                 (dadd (dsum (map (\<lambda>j. dmul (dadd (Elem (EvaluateFlux (hyp s) x1 e k i) n j)
                                              (Elem (EvaluateFlux (hyp s) x2 e k i) n j))
                                        (normal ! j)) [0..<d]))
                       (dmul (dmax (GetWaveSpeed (hyp s) x1 normal e k i)
                                   (GetWaveSpeed (hyp s) x2 normal e k i))
                             (dsub (x1 ! n) (x2 ! n))))
                 (Finite (1 / 2)))
               [0..<m],
          s\<lparr>Flux := (EvaluateFlux (hyp s) x1 e k i)
                 \<lparr>Data := map2 dadd (Data (EvaluateFlux (hyp s) x1 e k i))
                                    (Data (EvaluateFlux (hyp s) x2 e k i))\<rparr>,
            FluxNbr := EvaluateFlux (hyp s) x2 e k i\<rparr>)"
proof -
  let ?F1 = "EvaluateFlux (hyp s) x1 e k i"
  let ?F2 = "EvaluateFlux (hyp s) x2 e k i"
  let ?S = "?F1\<lparr>Data := map2 dadd (Data ?F1) (Data ?F2)\<rparr>"
  let ?ws = "dmax (GetWaveSpeed (hyp s) x1 normal e k i) (GetWaveSpeed (hyp s) x2 normal e k i)"
  let ?y1 = "map (\<lambda>n. dsum (map (\<lambda>j. dmul (dadd (Elem ?F1 n j) (Elem ?F2 n j)) (normal ! j))
                               [0..<d])) [0..<m]"
  let ?diff = "map2 (\<lambda>a b. dmul ?ws (dsub a b)) x1 x2"
  have add: "DenseMatrix_add_assign ?F1 ?F2 = Inr ?S"
    using F1 F2 by (simp add: DenseMatrix_add_assign_def has_size_def)
  have rows: "map (\<lambda>n. dsum (map (\<lambda>j. dmul (Elem ?S n j) (normal ! j)) [0..<d])) [0..<m] = ?y1"
    by (intro map_cong refl arg_cong [where f = dsum])
      (simp_all add: Elem_add_assign [OF F1 F2])
  have mult: "DenseMatrix_Mult ?S normal y = Inr ?y1"
  proof -
    have "DenseMatrix_Mult ?S normal y
        = Inr (map (\<lambda>n. dsum (map (\<lambda>j. dmul (Elem ?S n j) (normal ! j)) [0..<d])) [0..<m])"
      using F1 F2 len by (simp add: DenseMatrix_Mult_def has_size_def)
    then show ?thesis by (simp only: rows)
  qed
  have sub: "subtract ?ws x1 x2 (Vector_new (length ?y1)) = Inr ?diff"
    using len by (simp add: subtract_def Vector_new_def)
  have plus: "Vector_add_assign ?y1 ?diff
      = Inr (map (\<lambda>n. dadd (dsum (map (\<lambda>j. dmul (dadd (Elem ?F1 n j) (Elem ?F2 n j))
                                               (normal ! j)) [0..<d]))
                            (dmul ?ws (dsub (x1 ! n) (x2 ! n)))) [0..<m])"
    using len by (auto simp: Vector_add_assign_def intro!: nth_equalityI)
  show ?thesis
    unfolding LaxFriedrichs_def Let_def add mult sum.case sub plus
    by (simp add: Vector_mul_assign_def)
qed

text \<open>
  One component: as long as nothing overflows or underflows, halving the sum is the sum
  of the halves.
\<close>

lemma halvable_half: "halvable x \<Longrightarrow> rd (x / 2) = rd x / 2"
  unfolding halvable_def by (rule rd_half)

lemma LF_component:
  assumes r: "LF_in_range S W D" and S: "is_double S" and W: "is_double W"
  shows "dmul (dadd S (dmul W D)) (Finite (1 / 2))
       = dadd (dmul (Finite (1 / 2)) S) (dmul (dmul (Finite (1 / 2)) W) D)"
proof -
  from r obtain sv w dv where eq: "S = Finite sv" "W = Finite w" "D = Finite dv"
    and h: "halvable sv" "halvable w" "halvable (w * dv)" "\<bar>rd (w * dv)\<bar> < 2 ^ 1024"
      "halvable (sv + rd (w * dv))" "\<bar>rd (sv + rd (w * dv))\<bar> < 2 ^ 1024"
    by (auto simp: LF_in_range_def split: double.splits)
  define p where "p = rd (w * dv)"
  define t where "t = rd (sv + p)"
  from S W eq have d: "rd sv = sv" "\<bar>sv\<bar> < 2 ^ 1024" "rd w = w" "\<bar>w\<bar> < 2 ^ 1024"
    by (simp_all add: is_double_Finite)
  have P: "dmul W D = Finite p"
    using h(4) by (simp add: eq p_def round_double_Finite)
  have T: "dadd S (Finite p) = Finite t"
    using h(6) by (simp add: eq t_def p_def round_double_Finite)
  have t2: "rd ((sv + p) / 2) = t / 2"
    using h(5) by (simp add: t_def p_def halvable_half)
  then have "rd (t / 2) = t / 2" by (metis rd_rd)
  moreover have "\<bar>t / 2\<bar> < 2 ^ 1024" using h(6) by (simp add: t_def p_def)
  ultimately have L: "dmul (Finite t) (Finite (1 / 2)) = Finite (t / 2)"
    by (simp add: round_double_exact)
  have "rd (sv / 2) = sv / 2" using h(1) d(1) by (simp add: halvable_half)
  moreover have "\<bar>sv / 2\<bar> < 2 ^ 1024" using d(2) by simp
  ultimately have hS: "dmul (Finite (1 / 2)) S = Finite (sv / 2)"
    by (simp add: eq round_double_exact)
  have "rd (w / 2) = w / 2" using h(2) d(3) by (simp add: halvable_half)
  moreover have "\<bar>w / 2\<bar> < 2 ^ 1024" using d(4) by simp
  ultimately have hW: "dmul (Finite (1 / 2)) W = Finite (w / 2)"
    by (simp add: eq round_double_exact)
  have "rd (w * dv / 2) = p / 2" using h(3) by (simp add: p_def halvable_half)
  moreover have "\<bar>p / 2\<bar> < 2 ^ 1024" using h(4) by (simp add: p_def)
  ultimately have hP: "dmul (Finite (w / 2)) D = Finite (p / 2)"
    by (simp add: eq round_double_Finite)
  have e: "sv / 2 + p / 2 = (sv + p) / 2" by (simp add: add_divide_distrib)
  have b: "\<bar>t / 2\<bar> < 2 ^ 1024" using h(6) by (simp add: t_def p_def)
  have "round_double ((sv + p) / 2) = Finite (rd ((sv + p) / 2))"
    by (rule round_double_Finite) (simp only: t2 b)
  then have R: "dadd (Finite (sv / 2)) (Finite (p / 2)) = Finite (t / 2)"
    by (simp only: dadd.simps e t2)
  show ?thesis by (simp only: P T L hS hW hP R)
qed


lemma is_double_dmax: "is_double a \<Longrightarrow> is_double b \<Longrightarrow> is_double (dmax a b)"
  by (simp add: dmax_def)

text \<open>Small integers, their halves and the largest power of two are doubles.\<close>

lemma round_double_int: "\<bar>m\<bar> < 2 ^ 53 \<Longrightarrow> round_double (of_int m) = Finite (of_int m)"
proof -
  assume m: "\<bar>m\<bar> < 2 ^ 53"
  then have "rd (of_int m * 2 powi 0) = of_int m * 2 powi 0" by (intro rd_representable) simp_all
  then have r: "rd (of_int m) = of_int m" by simp
  from m have "real_of_int \<bar>m\<bar> < real_of_int (2 ^ 53)" by (simp only: of_int_less_iff)
  then have "\<bar>real_of_int m\<bar> < 2 ^ 1024" by simp
  with r show ?thesis by (rule round_double_exact)
qed

lemma round_double_half_int:
  "\<bar>m\<bar> < 2 ^ 53 \<Longrightarrow> round_double (of_int m / 2) = Finite (of_int m / 2)"
proof -
  assume m: "\<bar>m\<bar> < 2 ^ 53"
  then have "rd (of_int m * 2 powi (- 1)) = of_int m * 2 powi (- 1)"
    by (intro rd_representable) simp_all
  then have r: "rd (of_int m / 2) = of_int m / 2" by (simp add: power_int_minus field_simps)
  from m have "real_of_int \<bar>m\<bar> < real_of_int (2 ^ 53)" by (simp only: of_int_less_iff)
  then have "\<bar>real_of_int m / 2\<bar> < 2 ^ 1024" by simp
  with r show ?thesis by (rule round_double_exact)
qed

lemma round_double_0: "round_double 0 = Finite 0"
  using round_double_int [of 0] by simp

lemma round_double_1: "round_double 1 = Finite 1"
  using round_double_int [of 1] by simp

lemma round_double_neg_1: "round_double (- 1) = Finite (- 1)"
  using round_double_int [of "- 1"] by simp

lemma round_double_numeral:
  "(numeral n :: int) < 2 ^ 53 \<Longrightarrow> round_double (numeral n) = Finite (numeral n)"
  using round_double_int [of "numeral n"] by simp

lemma round_double_neg_numeral:
  "(numeral n :: int) < 2 ^ 53 \<Longrightarrow> round_double (- numeral n) = Finite (- numeral n)"
  using round_double_int [of "- numeral n"] by simp

lemma round_double_half: "round_double (1 / 2) = Finite (1 / 2)"
  using round_double_half_int [of 1] by simp

lemma round_double_numeral_half:
  "(numeral n :: int) < 2 ^ 53 \<Longrightarrow> round_double (numeral n / 2) = Finite (numeral n / 2)"
  using round_double_half_int [of "numeral n"] by simp

lemma round_double_neg_numeral_half:
  "(numeral n :: int) < 2 ^ 53
     \<Longrightarrow> round_double (- (numeral n / 2)) = Finite (- (numeral n / 2))"
  using round_double_half_int [of "- numeral n"] by simp

lemmas round_double_eval =
  round_double_0 round_double_1 round_double_neg_1 round_double_numeral round_double_neg_numeral
  round_double_half round_double_numeral_half round_double_neg_numeral_half

lemma rd_of_round_double: "round_double x = Finite x \<Longrightarrow> rd x = x"
  using round_double_FiniteD(1) [of x x] by simp

lemma rd_numeral: "(numeral n :: int) < 2 ^ 53 \<Longrightarrow> rd (numeral n) = numeral n"
  by (rule rd_of_round_double) (rule round_double_numeral)

lemma rd_neg_numeral: "(numeral n :: int) < 2 ^ 53 \<Longrightarrow> rd (- numeral n) = - numeral n"
  by (rule rd_of_round_double) (rule round_double_neg_numeral)

lemma rd_1: "rd 1 = 1"
  by (rule rd_of_round_double) (rule round_double_1)

lemma rd_neg_1: "rd (- 1) = - 1"
  by (rule rd_of_round_double) (rule round_double_neg_1)

lemmas rd_eval = rd_numeral rd_neg_numeral rd_1 rd_neg_1

lemma halvable_ge_1: "1 \<le> \<bar>x\<bar> \<Longrightarrow> halvable x"
proof -
  assume "1 \<le> \<bar>x\<bar>"
  moreover have "(2::real) powi (- 1021) \<le> 2 powi 0" by (intro power_int_increasing) simp_all
  ultimately show ?thesis by (simp add: halvable_def)
qed

lemma doublable_ge_1: "1 \<le> \<bar>x\<bar> \<Longrightarrow> doublable x"
proof -
  assume "1 \<le> \<bar>x\<bar>"
  moreover have "(2::real) powi (- 1022) \<le> 2 powi 0" by (intro power_int_increasing) simp_all
  ultimately show ?thesis by (simp add: doublable_def)
qed

lemma halvable_0: "halvable 0" by (simp add: halvable_def)
lemma doublable_0: "doublable 0" by (simp add: doublable_def)

lemma upt_2: "[0..<2] = [0, Suc 0]"
  by (simp add: upt_rec)

lemma big_double:
  fixes b :: real
  assumes "b = 2 ^ 1023"
  shows "round_double b = Finite b" and "round_double (2 * b) = PInf"
    and "round_double (b / 2) = Finite (b / 2)"
proof -
  have "rd (of_int 1 * 2 powi 1023) = of_int 1 * 2 powi 1023"
    by (intro rd_representable) simp_all
  then have "rd b = b" by (simp add: assms)
  moreover have "\<bar>b\<bar> < 2 ^ 1024" by (simp add: assms)
  ultimately show "round_double b = Finite b" by (rule round_double_exact)
  have "rd (of_int 1 * 2 powi 1024) = of_int 1 * 2 powi 1024"
    by (intro rd_representable) simp_all
  then have "rd (2 * b) = 2 ^ 1024" by (simp add: assms)
  then show "round_double (2 * b) = PInf" by (simp add: round_double_PInf)
  have "rd (of_int 1 * 2 powi 1022) = of_int 1 * 2 powi 1022"
    by (intro rd_representable) simp_all
  then have "rd (b / 2) = b / 2" by (simp add: assms)
  moreover have "\<bar>b / 2\<bar> < 2 ^ 1024" by (simp add: assms)
  ultimately show "round_double (b / 2) = Finite (b / 2)" by (rule round_double_exact)
qed

text \<open>The smallest positive double, its double, its half and two of its multiples.\<close>

lemma rd_subnormal:
  assumes "x \<noteq> 0" "\<bar>x\<bar> < 2 powi (- 1022)"
  shows "rd x = of_int (rne (x / 2 powi (- 1074))) * 2 powi (- 1074)"
proof -
  from assms have "expo x = - 1022" by (rule expo_subnormal)
  then have "ulp x = 2 powi (- 1074)" by (simp add: ulp_def)
  then show ?thesis by (simp only: rd_def)
qed

lemma rne_half: "rne (1 / 2) = 0"
  by (simp add: rne_def)

lemma rne_5_8: "rne (5 / 8) = 1"
  by (simp add: rne_def)

lemma rne_5_4: "rne (5 / 4) = 1"
  by (simp add: rne_def)

lemma tiny_double:
  fixes t :: real
  assumes "t = 2 powi (- 1074)"
  shows "round_double t = Finite t" and "round_double (2 * t) = Finite (2 * t)"
    and "round_double (t / 2) = Finite 0"
    and "round_double (t * 5 / 8) = Finite t"
    and "round_double (5 * t / 4) = Finite t"
proof -
  have pos: "0 < t" by (simp add: assms)
  have small: "2 * t < 2 powi (- 1022)"
  proof -
    have "2 * t = 2 powi (- 1073)" by (simp add: assms power_int_minus field_simps)
    moreover have "(2::real) powi (- 1073) < 2 powi (- 1022)"
      by (intro power_int_strict_increasing) simp_all
    ultimately show ?thesis by simp
  qed
  have big: "\<bar>t\<bar> < 2 ^ 1024" "\<bar>2 * t\<bar> < 2 ^ 1024"
  proof -
    have "(2::real) powi (- 1022) < 2 powi 1024" by (intro power_int_strict_increasing) simp_all
    with small pos show "\<bar>t\<bar> < 2 ^ 1024" "\<bar>2 * t\<bar> < 2 ^ 1024" by simp_all
  qed
  have "rd (of_int 1 * 2 powi (- 1074)) = of_int 1 * 2 powi (- 1074)"
    by (intro rd_representable) simp_all
  then have r1: "rd t = t" by (simp only: assms of_int_1 mult_1)
  from r1 big(1) show "round_double t = Finite t" by (rule round_double_exact)
  from r1 have "rd (2 * t) = 2 * t" by (rule rd_twice)
  from this big(2) show "round_double (2 * t) = Finite (2 * t)" by (rule round_double_exact)
  have sub: "rd (c * t) = of_int (rne c) * t" if "c \<noteq> 0" "\<bar>c\<bar> \<le> 2" for c :: real
  proof -
    have "c * t \<noteq> 0" using that pos by simp
    moreover have "\<bar>c * t\<bar> \<le> 2 * t" using that pos by (simp add: abs_mult)
    then have "\<bar>c * t\<bar> < 2 powi (- 1022)" using small by linarith
    ultimately have "rd (c * t) = of_int (rne (c * t / 2 powi (- 1074))) * 2 powi (- 1074)"
      by (rule rd_subnormal)
    then have "rd (c * t) = of_int (rne (c * t / t)) * t" by (simp only: assms [symmetric])
    then show ?thesis using pos by simp
  qed
  have "rd ((1 / 2) * t) = of_int (rne (1 / 2)) * t" by (rule sub) simp_all
  then have "rd (t / 2) = 0" by (simp add: rne_half)
  then show "round_double (t / 2) = Finite 0" by (simp add: round_double_Finite)
  have "rd ((5 / 8) * t) = of_int (rne (5 / 8)) * t" by (rule sub) simp_all
  then have "rd (t * 5 / 8) = t" by (simp add: rne_5_8 mult.commute)
  with big(1) show "round_double (t * 5 / 8) = Finite t"
    using round_double_Finite [of "t * 5 / 8"] by simp
  have "rd ((5 / 4) * t) = of_int (rne (5 / 4)) * t" by (rule sub) simp_all
  then have "rd (5 * t / 4) = t" by (simp add: rne_5_4)
  with big(1) show "round_double (5 * t / 4) = Finite t"
    using round_double_Finite [of "5 * t / 4"] by simp
qed

text \<open>
  Doubling every entry of a row doubles its product with the normal, as long as nothing
  overflows or underflows.
\<close>

lemma rd_doublable: "doublable x \<Longrightarrow> rd (2 * x) = 2 * rd x"
  unfolding doublable_def by (rule rd_double)

lemma dot_scale:
  assumes "dot_in_range acc ps" and "\<forall>p\<in>set ps. is_double (fst p)"
    and "rd acc = acc" and "\<bar>acc\<bar> < 2 ^ 1023"
  shows "\<exists>r. foldl dadd (Finite acc) (map (\<lambda>(f, n). dmul f n) ps) = Finite r
           \<and> foldl dadd (Finite (2 * acc)) (map (\<lambda>(f, n). dmul (dadd f f) n) ps)
               = Finite (2 * r)
           \<and> rd r = r \<and> \<bar>r\<bar> < 2 ^ 1023"
  using assms
proof (induction acc ps rule: dot_in_range.induct)
  case (1 acc)
  then show ?case by simp
next
  case (2 acc f n rest)
  define p where "p = rd (f * n)"
  define a where "a = rd (acc + p)"
  from "2.prems"(1) have h: "\<bar>f\<bar> < 2 ^ 1023" "doublable (f * n)" "\<bar>p\<bar> < 2 ^ 1023"
      "doublable (acc + p)" "\<bar>a\<bar> < 2 ^ 1023" "dot_in_range a rest"
    by (simp_all add: p_def a_def)
  from "2.prems"(2) have f: "rd f = f" by (simp add: is_double_Finite)
  have m1: "dmul (Finite f) (Finite n) = Finite p"
    using h(3) by (simp add: p_def round_double_Finite)
  have a1: "dadd (Finite acc) (Finite p) = Finite a"
    using h(5) by (simp add: a_def round_double_Finite)
  have "rd (2 * f) = 2 * f" using f by (rule rd_twice)
  moreover have "\<bar>2 * f\<bar> < 2 ^ 1024" using h(1) by simp
  ultimately have "round_double (2 * f) = Finite (2 * f)" by (rule round_double_exact)
  then have ff: "dadd (Finite f) (Finite f) = Finite (2 * f)" by simp
  have e1: "rd (2 * (f * n)) = 2 * p" unfolding p_def using h(2) by (rule rd_doublable)
  have b1: "\<bar>2 * p\<bar> < 2 ^ 1024" using h(3) by simp
  have "round_double (2 * (f * n)) = Finite (rd (2 * (f * n)))"
    by (rule round_double_Finite) (simp only: e1 b1)
  then have "round_double (2 * (f * n)) = Finite (2 * p)" by (simp only: e1)
  then have "round_double (2 * f * n) = Finite (2 * p)" by (simp only: mult.assoc)
  then have m2: "dmul (Finite (2 * f)) (Finite n) = Finite (2 * p)"
    by (simp only: dmul.simps)
  have e2: "rd (2 * (acc + p)) = 2 * a" unfolding a_def using h(4) by (rule rd_doublable)
  have b2: "\<bar>2 * a\<bar> < 2 ^ 1024" using h(5) by simp
  have "round_double (2 * (acc + p)) = Finite (rd (2 * (acc + p)))"
    by (rule round_double_Finite) (simp only: e2 b2)
  then have "round_double (2 * (acc + p)) = Finite (2 * a)" by (simp only: e2)
  then have "round_double (2 * acc + 2 * p) = Finite (2 * a)" by (simp only: distrib_left)
  then have a2: "dadd (Finite (2 * acc)) (Finite (2 * p)) = Finite (2 * a)"
    by (simp only: dadd.simps)
  have "rd a = a" by (simp add: a_def rd_rd)
  with "2.IH" [of ] h(5,6) "2.prems"(2)
  obtain r where r: "foldl dadd (Finite a) (map (\<lambda>(f, n). dmul f n) rest) = Finite r"
      "foldl dadd (Finite (2 * a)) (map (\<lambda>(f, n). dmul (dadd f f) n) rest) = Finite (2 * r)"
      "rd r = r" "\<bar>r\<bar> < 2 ^ 1023"
    by (auto simp: a_def p_def)
  show ?case
  proof (intro exI [of _ r] conjI)
    show "foldl dadd (Finite acc) (map (\<lambda>(f, n). dmul f n) ((Finite f, Finite n) # rest))
        = Finite r"
      by (simp add: m1 a1 r(1) del: dadd.simps dmul.simps)
    show "foldl dadd (Finite (2 * acc))
            (map (\<lambda>(f, n). dmul (dadd f f) n) ((Finite f, Finite n) # rest)) = Finite (2 * r)"
      by (simp add: ff m2 a2 r(2) del: dadd.simps dmul.simps)
    show "rd r = r" by fact
    show "\<bar>r\<bar> < 2 ^ 1023" by fact
  qed
qed simp_all

lemma finite_doubleE:
  assumes "finite_double v"
  obtains x where "v = Finite x"
  using assms by (cases v) (simp_all add: finite_double_def)

lemma consistent_component:
  assumes "dot_in_range 0 ps" and "\<forall>p\<in>set ps. is_double (fst p)"
    and "finite_double W" and "finite_double U"
  shows "dmul (dadd (dsum (map (\<lambda>(f, n). dmul (dadd f f) n) ps)) (dmul W (dsub U U)))
              (Finite (1 / 2))
       = dsum (map (\<lambda>(f, n). dmul f n) ps)"
proof -
  from dot_scale [OF assms(1,2)]
  obtain r where r: "dsum (map (\<lambda>(f, n). dmul f n) ps) = Finite r"
      "dsum (map (\<lambda>(f, n). dmul (dadd f f) n) ps) = Finite (2 * r)"
      "rd r = r" "\<bar>r\<bar> < 2 ^ 1023"
    by (auto simp: dsum_def)
  from assms(3,4) obtain w uv where eq: "W = Finite w" "U = Finite uv"
    by (elim finite_doubleE)
  have d: "dmul W (dsub U U) = Finite 0"
    by (simp add: eq dsub_def round_double_0)
  have "rd (2 * r) = 2 * r" using r(3) by (rule rd_twice)
  moreover have "\<bar>2 * r\<bar> < 2 ^ 1024" using r(4) by simp
  ultimately have t: "round_double (2 * r) = Finite (2 * r)" by (rule round_double_exact)
  have "\<bar>r\<bar> < 2 ^ 1024" using r(4) by simp
  with r(3) have h: "round_double r = Finite r" by (rule round_double_exact)
  show ?thesis by (simp add: r d t h)
qed

text \<open>
  Claim C1, amended.  For state vectors \<open>x1\<close>, \<open>x2\<close> with \<open>m\<close> components, a normal with \<open>d\<close>
  components, fluxes of size \<open>m\<close> by \<open>d\<close> and wave speeds that are doubles, \<open>LaxFriedrichs\<close>
  returns \<open>y = 0.5 * (F(x1) + F(x2)) \<cdot> normal + 0.5 * ws * (x1 - x2)\<close> in double precision,
  where \<open>F\<close> is the flux given by \<open>EvaluateFlux\<close> and \<open>ws\<close> is the larger of the wave speeds of
  \<open>x1\<close> and \<open>x2\<close>, provided that no component overflows or underflows: the flux term, the
  wave speed and the difference of the states are finite, the product of the wave speed
  with the difference and its sum with the flux term round to finite doubles, and the
  flux term, the wave speed, the exact product and the exact sum are each zero or at
  least \<open>2 ^ -1021\<close> in magnitude.  The normal need not have length one.
\<close>

theorem LaxFriedrichs_formula:
  assumes "has_size (EvaluateFlux (hyp s) x1 e k i) m d"
    and "has_size (EvaluateFlux (hyp s) x2 e k i) m d"
    and "length x1 = m" and "length x2 = m" and "length y = m" and "length normal = d"
    and "is_double (GetWaveSpeed (hyp s) x1 normal e k i)"
    and "is_double (GetWaveSpeed (hyp s) x2 normal e k i)"
    and "\<forall>n<m. LF_in_range
           (dsum (map (\<lambda>j. dmul (dadd (Elem (EvaluateFlux (hyp s) x1 e k i) n j)
                                     (Elem (EvaluateFlux (hyp s) x2 e k i) n j))
                               (normal ! j)) [0..<d]))
           (dmax (GetWaveSpeed (hyp s) x1 normal e k i) (GetWaveSpeed (hyp s) x2 normal e k i))
           (dsub (x1 ! n) (x2 ! n))"
  shows "map_sum id fst (LaxFriedrichs s x1 x2 normal y e k i) =
     Inr (LaxFriedrichs_spec (EvaluateFlux (hyp s) x1 e k i) (EvaluateFlux (hyp s) x2 e k i)
            (dmax (GetWaveSpeed (hyp s) x1 normal e k i)
                  (GetWaveSpeed (hyp s) x2 normal e k i))
            x1 x2 normal m d)"
proof -
  note v = LaxFriedrichs_value [OF assms(1-6)]
  have w: "is_double (dmax (GetWaveSpeed (hyp s) x1 normal e k i)
                           (GetWaveSpeed (hyp s) x2 normal e k i))"
    using assms(7,8) by (rule is_double_dmax)
  show ?thesis
    unfolding v LaxFriedrichs_spec_def map_sum.simps fst_conv id_apply
    using assms(9) by (intro arg_cong [where f = Inr] map_cong refl LF_component w is_double_dsum) simp
qed

theorem LaxFriedrichs_formula_witness:
  "has_size (EvaluateFlux (hyp example_state_double) [Finite 1, Finite 2] 0 0 0) 2 2
   \<and> has_size (EvaluateFlux (hyp example_state_double) [Finite 3, Finite 5] 0 0 0) 2 2
   \<and> map_sum id fst (LaxFriedrichs example_state_double [Finite 1, Finite 2]
         [Finite 3, Finite 5] [Finite 1, Finite 0] [Finite 0, Finite 0] 0 0 0)
       = Inr [Finite (- 1), Finite (- 1)]"
proof -
  let ?s = example_state_double
  let ?x1 = "[Finite 1, Finite 2]"
  let ?x2 = "[Finite 3, Finite 5]"
  let ?n = "[Finite 1, Finite 0]"
  have h1: "has_size (EvaluateFlux (hyp ?s) ?x1 0 0 0) 2 2"
    by (simp add: has_size_def example_state_double_def example_system_double_def)
  have h2: "has_size (EvaluateFlux (hyp ?s) ?x2 0 0 0) 2 2"
    by (simp add: has_size_def example_state_double_def example_system_double_def)
  have w1: "is_double (GetWaveSpeed (hyp ?s) ?x1 ?n 0 0 0)"
    by (simp add: example_state_double_def example_system_double_def is_double_def
        round_double_eval)
  have w2: "is_double (GetWaveSpeed (hyp ?s) ?x2 ?n 0 0 0)"
    by (simp add: example_state_double_def example_system_double_def is_double_def
        round_double_eval)
  have r: "\<forall>n<2. LF_in_range
           (dsum (map (\<lambda>j. dmul (dadd (Elem (EvaluateFlux (hyp ?s) ?x1 0 0 0) n j)
                                     (Elem (EvaluateFlux (hyp ?s) ?x2 0 0 0) n j))
                               (?n ! j)) [0..<2]))
           (dmax (GetWaveSpeed (hyp ?s) ?x1 ?n 0 0 0) (GetWaveSpeed (hyp ?s) ?x2 ?n 0 0 0))
           (dsub (?x1 ! n) (?x2 ! n))"
    by (simp add: less_2_cases_iff example_state_double_def example_system_double_def
        Elem_def upt_2 dsum_def dmax_def dsub_def LF_in_range_def round_double_eval rd_eval
        halvable_ge_1 halvable_0)
  have v: "LaxFriedrichs_spec (EvaluateFlux (hyp ?s) ?x1 0 0 0) (EvaluateFlux (hyp ?s) ?x2 0 0 0)
            (dmax (GetWaveSpeed (hyp ?s) ?x1 ?n 0 0 0) (GetWaveSpeed (hyp ?s) ?x2 ?n 0 0 0))
            ?x1 ?x2 ?n 2 2 = [Finite (- 1), Finite (- 1)]"
    by (simp add: LaxFriedrichs_spec_def example_state_double_def example_system_double_def
        Elem_def upt_2 dsum_def dmax_def dsub_def round_double_eval)
  from LaxFriedrichs_formula [OF h1 h2 _ _ _ _ w1 w2 r, of "[Finite 0, Finite 0]"] h1 h2 v
  show ?thesis by simp
qed


text \<open>
  Claim C1 as stated, for every pair of state vectors, fails where the sum overflows before
  it is halved.  For linear advection in one dimension, \<open>x1 = 2 ^ 1023\<close>, \<open>x2 = 0\<close> and the
  normal \<open>1\<close>, the code adds \<open>2 ^ 1023\<close> and \<open>2 ^ 1023\<close> and returns infinity, while the
  formula gives \<open>2 ^ 1023\<close>.
\<close>

theorem LaxFriedrichs_formula_counterexample:
  "map_sum id fst (LaxFriedrichs advection_state [Finite (2 ^ 1023)] [Finite 0] [Finite 1]
       [Finite 0] 0 0 0)
     = Inr [PInf]
   \<and> LaxFriedrichs_spec (EvaluateFlux (hyp advection_state) [Finite (2 ^ 1023)] 0 0 0)
        (EvaluateFlux (hyp advection_state) [Finite 0] 0 0 0)
        (dmax (GetWaveSpeed (hyp advection_state) [Finite (2 ^ 1023)] [Finite 1] 0 0 0)
              (GetWaveSpeed (hyp advection_state) [Finite 0] [Finite 1] 0 0 0))
        [Finite (2 ^ 1023)] [Finite 0] [Finite 1] 1 1
     = [Finite (2 ^ 1023)]
   \<and> map_sum id fst (LaxFriedrichs advection_state [Finite (2 ^ 1023)] [Finite 0] [Finite 1]
       [Finite 0] 0 0 0)
     \<noteq> Inr (LaxFriedrichs_spec (EvaluateFlux (hyp advection_state) [Finite (2 ^ 1023)] 0 0 0)
        (EvaluateFlux (hyp advection_state) [Finite 0] 0 0 0)
        (dmax (GetWaveSpeed (hyp advection_state) [Finite (2 ^ 1023)] [Finite 1] 0 0 0)
              (GetWaveSpeed (hyp advection_state) [Finite 0] [Finite 1] 0 0 0))
        [Finite (2 ^ 1023)] [Finite 0] [Finite 1] 1 1)"
proof -
  define b :: real where "b = 2 ^ 1023"
  note big = big_double [OF b_def]
  have pos: "0 < b" by (simp add: b_def)
  have code: "map_sum id fst (LaxFriedrichs advection_state [Finite b] [Finite 0] [Finite 1]
       [Finite 0] 0 0 0) = Inr [PInf]"
    by (simp add: LaxFriedrichs_def DenseMatrix_add_assign_def DenseMatrix_Mult_def
        subtract_def Vector_add_assign_def Vector_mul_assign_def Vector_new_def
        advection_state_def advection_system_def Elem_def dsum_def dmax_def dsub_def
        big round_double_eval)
  have spec: "LaxFriedrichs_spec (EvaluateFlux (hyp advection_state) [Finite b] 0 0 0)
        (EvaluateFlux (hyp advection_state) [Finite 0] 0 0 0)
        (dmax (GetWaveSpeed (hyp advection_state) [Finite b] [Finite 1] 0 0 0)
              (GetWaveSpeed (hyp advection_state) [Finite 0] [Finite 1] 0 0 0))
        [Finite b] [Finite 0] [Finite 1] 1 1 = [Finite b]"
    using big(1)
    by (simp add: LaxFriedrichs_spec_def advection_state_def advection_system_def Elem_def
        dsum_def dmax_def dsub_def big round_double_eval)
  from code spec show ?thesis unfolding b_def by simp
qed


text \<open>
  It also fails where a halved term underflows: with \<open>x1 = 2 ^ -1074\<close>, the smallest
  positive double, and \<open>x2 = 0\<close>, the code returns \<open>2 ^ -1074\<close>, while each of the two
  halves of the formula rounds to zero.
\<close>

lemma LaxFriedrichs_formula_underflow:
  "map_sum id fst (LaxFriedrichs advection_state [Finite (2 powi (- 1074))] [Finite 0]
       [Finite 1] [Finite 0] 0 0 0)
     = Inr [Finite (2 powi (- 1074))]
   \<and> LaxFriedrichs_spec (EvaluateFlux (hyp advection_state) [Finite (2 powi (- 1074))] 0 0 0)
        (EvaluateFlux (hyp advection_state) [Finite 0] 0 0 0)
        (dmax (GetWaveSpeed (hyp advection_state) [Finite (2 powi (- 1074))] [Finite 1] 0 0 0)
              (GetWaveSpeed (hyp advection_state) [Finite 0] [Finite 1] 0 0 0))
        [Finite (2 powi (- 1074))] [Finite 0] [Finite 1] 1 1
     = [Finite 0]"
proof -
  define t :: real where "t = 2 powi (- 1074)"
  note tiny = tiny_double [OF t_def]
  have code: "map_sum id fst (LaxFriedrichs advection_state [Finite t] [Finite 0] [Finite 1]
       [Finite 0] 0 0 0) = Inr [Finite t]"
    by (simp add: LaxFriedrichs_def DenseMatrix_add_assign_def DenseMatrix_Mult_def
        subtract_def Vector_add_assign_def Vector_mul_assign_def Vector_new_def
        advection_state_def advection_system_def Elem_def dsum_def dmax_def dsub_def
        tiny round_double_eval)
  have spec: "LaxFriedrichs_spec (EvaluateFlux (hyp advection_state) [Finite t] 0 0 0)
        (EvaluateFlux (hyp advection_state) [Finite 0] 0 0 0)
        (dmax (GetWaveSpeed (hyp advection_state) [Finite t] [Finite 1] 0 0 0)
              (GetWaveSpeed (hyp advection_state) [Finite 0] [Finite 1] 0 0 0))
        [Finite t] [Finite 0] [Finite 1] 1 1 = [Finite 0]"
    by (simp add: LaxFriedrichs_spec_def advection_state_def advection_system_def Elem_def
        dsum_def dmax_def dsub_def tiny round_double_eval)
  from code spec show ?thesis unfolding t_def by (rule conjI)
qed

text \<open>
  Claim C9, amended.  The Lax-Friedrichs flux is consistent as long as doubling the flux
  neither overflows nor underflows: when both states are the same vector \<open>u\<close> of finite
  doubles, the wave speed is finite, the entries of the flux are doubles, and in every row
  of \<open>EvaluateFlux(u) \<cdot> normal\<close> each entry, each product and each partial sum is below
  \<open>2 ^ 1023\<close> in magnitude and each exact product and partial sum is zero or at least
  \<open>2 ^ -1022\<close> in magnitude, \<open>LaxFriedrichs\<close> returns exactly \<open>EvaluateFlux(u) \<cdot> normal\<close>.
\<close>

theorem LaxFriedrichs_consistent:
  assumes "has_size (EvaluateFlux (hyp s) u e k i) m d"
    and "length u = m" and "length y = m" and "length normal = d"
    and "finite_double (GetWaveSpeed (hyp s) u normal e k i)"
    and "\<forall>n<m. finite_double (u ! n)"
    and "\<forall>n<m. \<forall>j<d. is_double (Elem (EvaluateFlux (hyp s) u e k i) n j)"
    and "\<forall>n<m. dot_in_range 0
           (map (\<lambda>j. (Elem (EvaluateFlux (hyp s) u e k i) n j, normal ! j)) [0..<d])"
  shows "map_sum id fst (LaxFriedrichs s u u normal y e k i) =
     Inr (flux_normal (EvaluateFlux (hyp s) u e k i) normal m d)"
proof -
  let ?F = "EvaluateFlux (hyp s) u e k i"
  let ?W = "GetWaveSpeed (hyp s) u normal e k i"
  note v = LaxFriedrichs_value [OF assms(1) assms(1) assms(2) assms(2) assms(3) assms(4)]
  have c: "dmul (dadd (dsum (map (\<lambda>j. dmul (dadd (Elem ?F n j) (Elem ?F n j)) (normal ! j))
                                 [0..<d]))
                      (dmul (dmax ?W ?W) (dsub (u ! n) (u ! n))))
                (Finite (1 / 2))
         = dsum (map (\<lambda>j. dmul (Elem ?F n j) (normal ! j)) [0..<d])"
    if n: "n < m" for n
  proof -
    let ?ps = "map (\<lambda>j. (Elem ?F n j, normal ! j)) [0..<d]"
    have 1: "dot_in_range 0 ?ps" using assms(8) n by simp
    have 2: "\<forall>p\<in>set ?ps. is_double (fst p)" using assms(7) n by auto
    have 3: "finite_double (u ! n)" using assms(6) n by simp
    from consistent_component [OF 1 2 assms(5) 3] show ?thesis
      by (simp add: comp_def dmax_def)
  qed
  show ?thesis
    unfolding v flux_normal_def map_sum.simps fst_conv id_apply
    by (intro arg_cong [where f = Inr] map_cong refl c) simp
qed


theorem LaxFriedrichs_consistent_witness:
  "has_size (EvaluateFlux (hyp example_state_double) [Finite 3, Finite 5] 0 0 0) 2 2
   \<and> finite_double (GetWaveSpeed (hyp example_state_double) [Finite 3, Finite 5]
         [Finite 0, Finite 1] 0 0 0)
   \<and> map_sum id fst (LaxFriedrichs example_state_double [Finite 3, Finite 5]
         [Finite 3, Finite 5] [Finite 0, Finite 1] [Finite 0, Finite 0] 0 0 0)
       = Inr [Finite 6, Finite 10]"
proof -
  let ?s = example_state_double
  let ?u = "[Finite 3, Finite 5]"
  let ?n = "[Finite 0, Finite 1]"
  have h: "has_size (EvaluateFlux (hyp ?s) ?u 0 0 0) 2 2"
    by (simp add: has_size_def example_state_double_def example_system_double_def)
  have w: "finite_double (GetWaveSpeed (hyp ?s) ?u ?n 0 0 0)"
    by (simp add: example_state_double_def example_system_double_def finite_double_def)
  have f: "\<forall>n<2. finite_double (?u ! n)"
    by (simp add: less_2_cases_iff finite_double_def)
  have d: "\<forall>n<2. \<forall>j<2. is_double (Elem (EvaluateFlux (hyp ?s) ?u 0 0 0) n j)"
    by (simp add: less_2_cases_iff example_state_double_def example_system_double_def
        Elem_def is_double_def round_double_eval)
  have r: "\<forall>n<2. dot_in_range 0
           (map (\<lambda>j. (Elem (EvaluateFlux (hyp ?s) ?u 0 0 0) n j, ?n ! j)) [0..<2])"
    by (simp add: less_2_cases_iff example_state_double_def example_system_double_def
        Elem_def upt_2 round_double_eval rd_eval doublable_ge_1 doublable_0)
  have v: "flux_normal (EvaluateFlux (hyp ?s) ?u 0 0 0) ?n 2 2 = [Finite 6, Finite 10]"
    by (simp add: flux_normal_def example_state_double_def example_system_double_def
        Elem_def upt_2 dsum_def round_double_eval)
  from LaxFriedrichs_consistent [OF h _ _ _ w f d r, of "[Finite 0, Finite 0]"] h w v
  show ?thesis by simp
qed

text \<open>
  Claim C9 as stated, for every state vector, fails where the sum of the two equal fluxes
  overflows.  For linear advection in one dimension, \<open>u = 2 ^ 1023\<close> and the normal \<open>1\<close>,
  the code returns infinity, while \<open>EvaluateFlux(u) \<cdot> normal\<close> is \<open>2 ^ 1023\<close>.
\<close>

theorem LaxFriedrichs_consistent_counterexample:
  "map_sum id fst (LaxFriedrichs advection_state [Finite (2 ^ 1023)] [Finite (2 ^ 1023)]
       [Finite 1] [Finite 0] 0 0 0)
     = Inr [PInf]
   \<and> flux_normal (EvaluateFlux (hyp advection_state) [Finite (2 ^ 1023)] 0 0 0) [Finite 1] 1 1
     = [Finite (2 ^ 1023)]
   \<and> map_sum id fst (LaxFriedrichs advection_state [Finite (2 ^ 1023)] [Finite (2 ^ 1023)]
       [Finite 1] [Finite 0] 0 0 0)
     \<noteq> Inr (flux_normal (EvaluateFlux (hyp advection_state) [Finite (2 ^ 1023)] 0 0 0)
              [Finite 1] 1 1)"
proof -
  define b :: real where "b = 2 ^ 1023"
  note big = big_double [OF b_def]
  have code: "map_sum id fst (LaxFriedrichs advection_state [Finite b] [Finite b] [Finite 1]
       [Finite 0] 0 0 0) = Inr [PInf]"
    by (simp add: LaxFriedrichs_def DenseMatrix_add_assign_def DenseMatrix_Mult_def
        subtract_def Vector_add_assign_def Vector_mul_assign_def Vector_new_def
        advection_state_def advection_system_def Elem_def dsum_def dmax_def dsub_def
        big round_double_eval)
  have spec: "flux_normal (EvaluateFlux (hyp advection_state) [Finite b] 0 0 0) [Finite 1] 1 1
      = [Finite b]"
    by (simp add: flux_normal_def advection_state_def advection_system_def Elem_def
        dsum_def big round_double_eval)
  from code spec show ?thesis unfolding b_def by simp
qed


text \<open>
  It also fails where the halved product underflows: with the flux \<open>2 ^ -1074\<close> and the
  normal \<open>5 / 8\<close>, the product of the doubled flux with the normal rounds to
  \<open>2 ^ -1074\<close> and its half to zero, while \<open>EvaluateFlux(u) \<cdot> normal\<close> rounds to
  \<open>2 ^ -1074\<close>.
\<close>

lemma LaxFriedrichs_consistent_underflow:
  "map_sum id fst (LaxFriedrichs advection_state [Finite (2 powi (- 1074))]
       [Finite (2 powi (- 1074))] [Finite (5 / 8)] [Finite 0] 0 0 0)
     = Inr [Finite 0]
   \<and> flux_normal (EvaluateFlux (hyp advection_state) [Finite (2 powi (- 1074))] 0 0 0)
        [Finite (5 / 8)] 1 1
     = [Finite (2 powi (- 1074))]"
proof -
  define t :: real where "t = 2 powi (- 1074)"
  note tiny = tiny_double [OF t_def]
  have code: "map_sum id fst (LaxFriedrichs advection_state [Finite t] [Finite t]
       [Finite (5 / 8)] [Finite 0] 0 0 0) = Inr [Finite 0]"
    by (simp add: LaxFriedrichs_def DenseMatrix_add_assign_def DenseMatrix_Mult_def
        subtract_def Vector_add_assign_def Vector_mul_assign_def Vector_new_def
        advection_state_def advection_system_def Elem_def dsum_def dmax_def dsub_def
        tiny round_double_eval)
  have spec: "flux_normal (EvaluateFlux (hyp advection_state) [Finite t] 0 0 0)
        [Finite (5 / 8)] 1 1 = [Finite t]"
    by (simp add: flux_normal_def advection_state_def advection_system_def Elem_def
        dsum_def tiny round_double_eval)
  from code spec show ?thesis unfolding t_def by (rule conjI)
qed


section \<open>Properties of the convergence check\<close>

lemma lumped_loop_returns:
  "i + n \<le> length M \<Longrightarrow> i + n \<le> length zv \<Longrightarrow> \<exists>r. lumped_loop M zv i n res = Inr r"
  by (induction n arbitrary: i res) simp_all

lemma ConvergenceCheck_returns:
  assumes "length (uOld s) = length u"
    and "SteadyState (hyp s) \<Longrightarrow> length u \<le> length (LumpedMassMat s)"
  shows "\<not> isl (ConvergenceCheck s dt tol u)"
proof (cases "SteadyState (hyp s)")
  case True
  with assms lumped_loop_returns [of 0 "length u" "LumpedMassMat s" "map2 (-) u (uOld s)" 0]
  show ?thesis
    by (auto simp: ConvergenceCheck_def Vector_sub_assign_def)
next
  case False
  with assms show ?thesis
    by (simp add: ConvergenceCheck_def Vector_sub_assign_def)
qed

lemma ConvergenceCheck_uOld:
  "ConvergenceCheck s dt tol u = Inr (res, s') \<Longrightarrow> uOld s' = u"
  by (auto simp: ConvergenceCheck_def Let_def split: sum.splits if_splits)

lemma sqrt_25: "sqrt 25 = 5"
  by (rule real_sqrt_unique) simp_all

text \<open>
  Claim C10.  \<open>ConvergenceCheck\<close> does not depend on \<open>tol\<close>: two calls that differ only in
  \<open>tol\<close> give the same residual and the same object (or fail alike), and after a call
  that returns, \<open>uOld\<close> is the argument \<open>u\<close>.  The call returns whenever \<open>uOld\<close> has the size
  of \<open>u\<close> and, for a steady state, the lumped mass matrix has an entry for each entry of
  \<open>u\<close>.
\<close>

theorem ConvergenceCheck_tol_independent:
  "ConvergenceCheck s dt tol1 u = ConvergenceCheck s dt tol2 u
   \<and> (\<forall>res s'. ConvergenceCheck s dt tol1 u = Inr (res, s') \<longrightarrow> uOld s' = u)
   \<and> (length (uOld s) = length u
        \<and> (SteadyState (hyp s) \<longrightarrow> length u \<le> length (LumpedMassMat s))
      \<longrightarrow> \<not> isl (ConvergenceCheck s dt tol1 u))"
proof (intro conjI allI impI)
  show "ConvergenceCheck s dt tol1 u = ConvergenceCheck s dt tol2 u"
    by (simp add: ConvergenceCheck_def)
next
  fix res s'
  assume "ConvergenceCheck s dt tol1 u = Inr (res, s')"
  then show "uOld s' = u" by (rule ConvergenceCheck_uOld)
next
  assume "length (uOld s) = length u
    \<and> (SteadyState (hyp s) \<longrightarrow> length u \<le> length (LumpedMassMat s))"
  then show "\<not> isl (ConvergenceCheck s dt tol1 u)"
    using ConvergenceCheck_returns [of s u dt tol1] by blast
qed

theorem ConvergenceCheck_tol_independent_witness:
  "ConvergenceCheck example_state (1 / 2) (1 / 100) [4, 3]
     = Inr (10, example_state\<lparr>z := [3, 2], uOld := [4, 3]\<rparr>)
   \<and> ConvergenceCheck example_state (1 / 2) 7 [4, 3]
     = Inr (10, example_state\<lparr>z := [3, 2], uOld := [4, 3]\<rparr>)
   \<and> uOld (example_state\<lparr>z := [3, 2], uOld := [4, 3]\<rparr>) = [4, 3]
   \<and> length (uOld example_state) = length [4, 3 :: real]
   \<and> length [4, 3 :: real] \<le> length (LumpedMassMat example_state)"
proof -
  have c: "ConvergenceCheck example_state (1 / 2) (1 / 100) [4, 3]
     = Inr (10, example_state\<lparr>z := [3, 2], uOld := [4, 3]\<rparr>)"
    by (simp add: ConvergenceCheck_def Vector_sub_assign_def example_state_def
        example_system_def eval_nat_numeral sqrt_25 Let_def)
  have l: "length (uOld example_state) = length [4, 3 :: real]
      \<and> length [4, 3 :: real] \<le> length (LumpedMassMat example_state)"
    by (simp add: example_state_def)
  from c l ConvergenceCheck_tol_independent [of example_state "1 / 2" "1 / 100" "[4, 3]" 7]
  show ?thesis by simp
qed

section \<open>Properties of the example program\<close>

lemma map_filter_append: "List.map_filter f (xs @ ys) = List.map_filter f xs @ List.map_filter f ys"
  by (simp add: List.map_filter_def)

lemma map_filter_replicate_None: "f x = None \<Longrightarrow> List.map_filter f (replicate n x) = []"
  by (induction n) simp_all

lemma map_filter_replicate_Some: "f x = Some y \<Longrightarrow> List.map_filter f (replicate n x) = replicate n y"
  by (induction n) simp_all

lemmas main_steps =
  init_mpi_def parse_options_def on_root_def read_mesh_def refine_mesh_def parallel_mesh_def
  par_ref_levels_def fe_spaces_def grid_functions_def bilinear_forms_def assemble_def
  solve_def compute_error_def save_files_def send_to_glvis_def free_memory_def

lemma successful_iff: "successful env \<longleftrightarrow> Good env"
  by (simp add: successful_def main_def)

text \<open>
  The steps of a successful run: the calls of each step of the workflow, counted.
\<close>

lemma steps_main:
  "Good env \<Longrightarrow> steps (fst (main env)) =
     replicate (if myid env = 0 then 8 else 7) 0
     @ 1 # replicate (nat (ref_levels env)) 1 @ [1, 1, 1]
     @ replicate 4 2
     @ replicate ((if pa env then 9 else 10) + (if static_cond env then 1 else 0)) 3
     @ replicate (if pa env then 8 else 5) 4
     @ [5]
     @ replicate (if visualization env then 7 else 4) 6"
  by (simp add: steps_def step_of_def main_def map_filter_append map_filter_replicate_None
      map_filter_replicate_Some main_steps eval_nat_numeral)

lemma sorted_main: "Good env \<Longrightarrow> sorted (steps (fst (main env)))"
  by (simp add: steps_main sorted_append)

lemma set_main: "Good env \<Longrightarrow> set (steps (fst (main env))) = {0, 1, 2, 3, 4, 5, 6}"
  by (auto simp add: steps_main)

lemma set_map_filter: "set (List.map_filter f xs) = {y. \<exists>x\<in>set xs. f x = Some y}"
  by (induction xs) (auto split: option.splits)

lemma sorted_map_filter_nth:
  "sorted (List.map_filter f xs) \<Longrightarrow> i < j \<Longrightarrow> j < length xs
     \<Longrightarrow> f (xs ! i) = Some a \<Longrightarrow> f (xs ! j) = Some b \<Longrightarrow> a \<le> (b::nat)"
proof (induction xs arbitrary: i j)
  case Nil
  then show ?case by simp
next
  case (Cons x xs)
  show ?case
  proof (cases i)
    case 0
    with Cons.prems obtain j' where j: "j = Suc j'" "j' < length xs"
      by (cases j) auto
    with Cons.prems have "b \<in> set (List.map_filter f xs)"
      by (auto simp: set_map_filter)
    with Cons.prems 0 show ?thesis by auto
  next
    case (Suc i')
    with Cons.prems obtain j' where j: "j = Suc j'" "i' < j'" "j' < length xs"
      by (cases j) auto
    from Cons.prems(1) have "sorted (List.map_filter f xs)"
      by (cases "f x") auto
    with Cons.IH [of i' j'] Cons.prems Suc j show ?thesis by simp
  qed
qed












text \<open>
  Claim C3.  When the option parser rejects the command line, the program prints the usage
  message on rank 0 and on no other rank, finalizes MPI as its last call and returns 1;
  the option parser is the only object it has constructed, and no call belongs to a step
  after the parsing of the options: no mesh, no finite element space, no operator.
\<close>

theorem exNDH1_bad_arguments:
  assumes "\<not> Good env"
  shows "snd (main env) = 1
    \<and> (Call ''args'' ''PrintUsage'' [''cout''] \<in> set (fst (main env)) \<longleftrightarrow> myid env = 0)
    \<and> last (fst (main env)) = Fn ''MPI_Finalize'' []
    \<and> constructed (fst (main env)) = [''OptionsParser'']
    \<and> set (steps (fst (main env))) = {0}"
  using assms
  by (simp add: main_def constructed_def steps_def step_of_def map_filter_append init_mpi_def
      parse_options_def on_root_def)

theorem exNDH1_bad_arguments_witness:
  "\<not> Good rejected_env
   \<and> main rejected_env =
       ([Fn ''MPI_Init'' [''&argc'', ''&argv''],
         Fn ''MPI_Comm_size'' [''MPI_COMM_WORLD'', ''&num_procs''],
         Fn ''MPI_Comm_rank'' [''MPI_COMM_WORLD'', ''&myid'']]
        @ parse_options
        @ [Call ''args'' ''PrintUsage'' [''cout''], Fn ''MPI_Finalize'' []], 1)
   \<and> constructed (fst (main rejected_env)) = [''OptionsParser'']"
proof -
  have h: "\<not> Good rejected_env" by (simp add: rejected_env_def)
  have m: "main rejected_env =
       ([Fn ''MPI_Init'' [''&argc'', ''&argv''],
         Fn ''MPI_Comm_size'' [''MPI_COMM_WORLD'', ''&num_procs''],
         Fn ''MPI_Comm_rank'' [''MPI_COMM_WORLD'', ''&myid'']]
        @ parse_options
        @ [Call ''args'' ''PrintUsage'' [''cout''], Fn ''MPI_Finalize'' []], 1)"
    by (simp add: main_def rejected_env_def init_mpi_def on_root_def)
  from h m exNDH1_bad_arguments [OF h] show ?thesis by simp
qed

text \<open>
  Claim C4.  Whatever the run, the program registers exactly five options with the option
  parser, in this order: the mesh file (\<open>-m\<close>), the polynomial order (\<open>-o\<close>), and the toggles
  for static condensation (\<open>-sc\<close>, \<open>-no-sc\<close>), partial assembly (\<open>-pa\<close>, \<open>-no-pa\<close>) and
  visualization (\<open>-vis\<close>, \<open>-no-vis\<close>).
\<close>

theorem exNDH1_options:
  "registered_options (fst (main env)) =
     [[''&mesh_file'', ''-m'', ''--mesh'', ''Mesh file to use.''],
      [''&order'', ''-o'', ''--order'', ''Finite element order (polynomial degree).''],
      [''&static_cond'', ''-sc'', ''--static-condensation'', ''-no-sc'',
       ''--no-static-condensation'', ''Enable static condensation.''],
      [''&pa'', ''-pa'', ''--partial-assembly'', ''-no-pa'', ''--no-partial-assembly'',
       ''Enable Partial Assembly.''],
      [''&visualization'', ''-vis'', ''--visualization'', ''-no-vis'',
       ''--no-visualization'', ''Enable or disable GLVis visualization.'']]"
  by (simp add: registered_options_def main_def map_filter_append map_filter_replicate_None
      main_steps)



lemma workflow_main:
  "Good env \<Longrightarrow> workflow (fst (main env)) =
     [Call ''args'' ''Parse'' [],
      New ''mesh'' ''Mesh'' [''mesh_file'', ''1'', ''1''],
      New ''pmesh'' ''ParMesh'' [''MPI_COMM_WORLD'', ''*mesh''],
      New ''fespace'' ''ParFiniteElementSpace'' [''pmesh'', ''fec''],
      New ''H1fespace'' ''ParFiniteElementSpace'' [''pmesh'', ''H1fec''],
      Call ''a'' ''Assemble'' [],
      Call ''a_NDH1'' ''Assemble'' [],
      (if pa env then Call ''cg'' ''Mult'' [''rhs'', ''x'']
       else Call ''pcg'' ''Mult'' [''B'', ''X'']),
      Call ''x'' ''ComputeL2Error'' [''gradp_coef''],
      Call ''pmesh'' ''Print'' [''mesh_ofs''],
      Call ''x'' ''Save'' [''sol_ofs'']]"
  by (simp add: workflow_def workflow_calls_def main_def main_steps)

text \<open>
  Claim C6.  On a successful run the steps come in the order of the workflow: parse options
  (0), build mesh (1), build function spaces (2), assemble operator (3), solve linear system
  (4), compute error (5), write output (6).  The calls that carry out the steps are made
  once each and in this order: \<open>args.Parse\<close>, the construction of the serial and of the
  parallel mesh, the construction of the two finite element spaces, the assembly of the
  two bilinear forms, the application of the solver (\<open>cg.Mult\<close> with partial assembly,
  \<open>pcg->Mult\<close> without), \<open>ComputeL2Error\<close>, and the printing of the mesh and of the
  solution.  Each of these calls belongs to its step, each step happens, and no call of a
  later step precedes a call of an earlier one.
\<close>

theorem exNDH1_workflow_order:
  assumes "successful env"
  shows "sorted (steps (fst (main env)))
    \<and> set (steps (fst (main env))) = {0, 1, 2, 3, 4, 5, 6}
    \<and> (\<forall>i j a b. i < j \<and> j < length (fst (main env))
           \<and> step_of (fst (main env) ! i) = Some a \<and> step_of (fst (main env) ! j) = Some b
         \<longrightarrow> a \<le> b)
    \<and> workflow (fst (main env)) =
         [Call ''args'' ''Parse'' [],
          New ''mesh'' ''Mesh'' [''mesh_file'', ''1'', ''1''],
          New ''pmesh'' ''ParMesh'' [''MPI_COMM_WORLD'', ''*mesh''],
          New ''fespace'' ''ParFiniteElementSpace'' [''pmesh'', ''fec''],
          New ''H1fespace'' ''ParFiniteElementSpace'' [''pmesh'', ''H1fec''],
          Call ''a'' ''Assemble'' [],
          Call ''a_NDH1'' ''Assemble'' [],
          (if pa env then Call ''cg'' ''Mult'' [''rhs'', ''x'']
           else Call ''pcg'' ''Mult'' [''B'', ''X'']),
          Call ''x'' ''ComputeL2Error'' [''gradp_coef''],
          Call ''pmesh'' ''Print'' [''mesh_ofs''],
          Call ''x'' ''Save'' [''sol_ofs'']]
    \<and> map step_of (workflow (fst (main env)))
         = [Some 0, Some 1, Some 1, Some 2, Some 2, Some 3, Some 3, Some 4, Some 5, Some 6,
            Some 6]"
proof -
  from assms have g: "Good env" by (simp add: successful_iff)
  have s: "sorted (steps (fst (main env)))" using g by (rule sorted_main)
  have t: "set (steps (fst (main env))) = {0, 1, 2, 3, 4, 5, 6}" using g by (rule set_main)
  have n: "a \<le> b"
    if "i < j \<and> j < length (fst (main env))
           \<and> step_of (fst (main env) ! i) = Some a \<and> step_of (fst (main env) ! j) = Some b"
    for i j a b
    using s that sorted_map_filter_nth [of step_of "fst (main env)" i j a b]
    by (simp add: steps_def)
  note w = workflow_main [OF g]
  have l: "map step_of (workflow (fst (main env)))
         = [Some 0, Some 1, Some 1, Some 2, Some 2, Some 3, Some 3, Some 4, Some 5, Some 6,
            Some 6]"
    unfolding w by (simp add: step_of_def)
  from s t n w l show ?thesis by blast
qed

theorem exNDH1_workflow_order_witness:
  "successful example_env
   \<and> step_of (fst (main example_env) ! 10) = Some 1
   \<and> step_of (fst (main example_env) ! 56) = Some 5
   \<and> sorted (steps (fst (main example_env)))
   \<and> set (steps (fst (main example_env))) = {0, 1, 2, 3, 4, 5, 6}
   \<and> workflow (fst (main example_env)) =
         [Call ''args'' ''Parse'' [],
          New ''mesh'' ''Mesh'' [''mesh_file'', ''1'', ''1''],
          New ''pmesh'' ''ParMesh'' [''MPI_COMM_WORLD'', ''*mesh''],
          New ''fespace'' ''ParFiniteElementSpace'' [''pmesh'', ''fec''],
          New ''H1fespace'' ''ParFiniteElementSpace'' [''pmesh'', ''H1fec''],
          Call ''a'' ''Assemble'' [],
          Call ''a_NDH1'' ''Assemble'' [],
          Call ''pcg'' ''Mult'' [''B'', ''X''],
          Call ''x'' ''ComputeL2Error'' [''gradp_coef''],
          Call ''pmesh'' ''Print'' [''mesh_ofs''],
          Call ''x'' ''Save'' [''sol_ofs'']]"
proof -
  have h: "successful example_env" by (simp add: successful_iff example_env_def)
  have i: "step_of (fst (main example_env) ! 10) = Some 1"
    by (simp add: main_def example_env_def main_steps step_of_def)
  have j: "step_of (fst (main example_env) ! 56) = Some 5"
    by (simp add: main_def example_env_def main_steps step_of_def eval_nat_numeral)
  have p: "\<not> pa example_env" by (simp add: example_env_def)
  from h i j p exNDH1_workflow_order [OF h] show ?thesis by simp
qed

end
